theory Spec2Isabelle
  imports Main "HOL-Library.Sublist" "HOL-Library.Multiset"
begin

section \<open>tinygoize: build classification and go:build constraint rewriting\<close>

text \<open>
  A shallow embedding of \<^verbatim>\<open>src/tools/tinygoize\<close> (\<^verbatim>\<open>build.go\<close>, \<^verbatim>\<open>main.go\<close>
  and the constraint rewriter \<^verbatim>\<open>fixupFileConstraints\<close>).

  Go strings are byte strings: \<^typ>\<open>string\<close>. What the program takes from outside is a
  parameter of the model: the two toolchain subprocesses and the directory listing
  (record \<open>Env\<close>), and the Go standard library's \<^verbatim>\<open>go/parser\<close> and \<^verbatim>\<open>go/printer\<close>
  (record \<open>GoLib\<close>). The files on disk are state (record \<open>World\<close>), passed through
  every function that reads or writes them. \<^verbatim>\<open>log.Fatal\<close> ends the process and a
  run-time panic unwinds it: both are values of type \<open>abort\<close>, returned on the left of
  a sum. Log output (\<^verbatim>\<open>log.Printf\<close>, the progress line) is not modelled.
\<close>

subsection \<open>Strings and the two regular expressions\<close>

definition HasPrefix :: "string \<Rightarrow> string \<Rightarrow> bool" where
  "HasPrefix s p = prefix p s"

definition HasSuffix :: "string \<Rightarrow> string \<Rightarrow> bool" where
  "HasSuffix s p = suffix p s"

definition Contains :: "string \<Rightarrow> string \<Rightarrow> bool" where
  "Contains s substr = sublist substr s"

definition goBuild :: string where
  "goBuild = ''//go:build ''"

definition constraint :: string where
  "constraint = ''!tinygo || tinygo.enable''"

text \<open>The class \<^verbatim>\<open>\s\<close> of Go's regexp syntax: tab, newline, form feed, carriage return, space.\<close>

definition isSpace :: "char \<Rightarrow> bool" where
  "isSpace c = (c = CHR 0x09 \<or> c = CHR 0x0A \<or> c = CHR 0x0C \<or> c = CHR 0x0D \<or> c = CHR '' '')"

text \<open>A literal at the head of the input; the result is the input after it.\<close>

fun lit :: "string \<Rightarrow> string \<Rightarrow> string option" where
  "lit [] s = Some s"
| "lit (p # ps) [] = None"
| "lit (p # ps) (c # cs) = (if p = c then lit ps cs else None)"

text \<open>\<^verbatim>\<open>c?\<close>, \<^verbatim>\<open>\s*\<close> and \<^verbatim>\<open>\s+\<close>, each greedy.\<close>

definition optChar :: "char \<Rightarrow> string \<Rightarrow> string" where
  "optChar c s = (case s of [] \<Rightarrow> [] | x # xs \<Rightarrow> if x = c then xs else s)"

definition spaces :: "string \<Rightarrow> string" where
  "spaces s = dropWhile isSpace s"

definition spaces1 :: "string \<Rightarrow> string option" where
  "spaces1 s = (case s of [] \<Rightarrow> None | x # xs \<Rightarrow> if isSpace x then Some (spaces xs) else None)"

text \<open>
  \<^verbatim>\<open>.\<close> takes one character other than newline. The regexp package reads its input
  as UTF-8: a well-formed multi-byte sequence is one character, any other byte is one
  character (the replacement character) of width one. \<open>runeLen\<close> is the width
  \<^verbatim>\<open>utf8.DecodeRuneInString\<close> reports at the head of a non-empty input.
\<close>

definition cont :: "char \<Rightarrow> nat \<Rightarrow> nat \<Rightarrow> bool" where
  "cont c lo hi = (lo \<le> (of_char c :: nat) \<and> (of_char c :: nat) \<le> hi)"

fun runeLen :: "string \<Rightarrow> nat" where
  "runeLen (a # b # c # d # s) =
     (let x = (of_char a :: nat) in
      if x < 0x80 then 1
      else if 0xC2 \<le> x \<and> x \<le> 0xDF then (if cont b 0x80 0xBF then 2 else 1)
      else if x = 0xE0 then (if cont b 0xA0 0xBF \<and> cont c 0x80 0xBF then 3 else 1)
      else if x = 0xED then (if cont b 0x80 0x9F \<and> cont c 0x80 0xBF then 3 else 1)
      else if 0xE1 \<le> x \<and> x \<le> 0xEF then (if cont b 0x80 0xBF \<and> cont c 0x80 0xBF then 3 else 1)
      else if x = 0xF0 then
        (if cont b 0x90 0xBF \<and> cont c 0x80 0xBF \<and> cont d 0x80 0xBF then 4 else 1)
      else if 0xF1 \<le> x \<and> x \<le> 0xF3 then
        (if cont b 0x80 0xBF \<and> cont c 0x80 0xBF \<and> cont d 0x80 0xBF then 4 else 1)
      else if x = 0xF4 then
        (if cont b 0x80 0x8F \<and> cont c 0x80 0xBF \<and> cont d 0x80 0xBF then 4 else 1)
      else 1)"
| "runeLen [a, b, c] =
     (let x = (of_char a :: nat) in
      if x < 0x80 then 1
      else if 0xC2 \<le> x \<and> x \<le> 0xDF then (if cont b 0x80 0xBF then 2 else 1)
      else if x = 0xE0 then (if cont b 0xA0 0xBF \<and> cont c 0x80 0xBF then 3 else 1)
      else if x = 0xED then (if cont b 0x80 0x9F \<and> cont c 0x80 0xBF then 3 else 1)
      else if 0xE1 \<le> x \<and> x \<le> 0xEF then (if cont b 0x80 0xBF \<and> cont c 0x80 0xBF then 3 else 1)
      else 1)"
| "runeLen [a, b] =
     (let x = (of_char a :: nat) in
      if 0xC2 \<le> x \<and> x \<le> 0xDF \<and> cont b 0x80 0xBF then 2 else 1)"
| "runeLen s = 1"

definition anyChar :: "string \<Rightarrow> string option" where
  "anyChar s = (case s of [] \<Rightarrow> None
     | x # xs \<Rightarrow> if x = CHR 0x0A then None else Some (drop (runeLen s) s))"

text \<open>\<^verbatim>\<open>(\s+\&\&)?\<close>: the group is taken when it matches, skipped otherwise.\<close>

definition optAnd :: "string \<Rightarrow> string" where
  "optAnd s = (case spaces1 s of None \<Rightarrow> s
     | Some t \<Rightarrow> (case lit ''&&'' t of None \<Rightarrow> s | Some u \<Rightarrow> u))"

text \<open>
  One match of \<^verbatim>\<open>\(?\s*!tinygo\s+\|\|\s+tinygo.enable\s*\)?(\s+\&\&)?\<close> at the head
  of the input, or \<open>None\<close>. Go's regexp takes the match a backtracking search finds
  first. Here each greedy choice is the only one that can succeed (what follows an
  optional or repeated item never starts with a character that item accepts) up to
  \<^verbatim>\<open>enable\<close>, and after it everything is optional, so the first greedy choice stands.
\<close>

definition matchClause :: "string \<Rightarrow> string option" where
  "matchClause s =
     (case lit ''!tinygo'' (spaces (optChar CHR ''('' s)) of None \<Rightarrow> None | Some s1 \<Rightarrow>
     (case spaces1 s1 of None \<Rightarrow> None | Some s2 \<Rightarrow>
     (case lit ''||'' s2 of None \<Rightarrow> None | Some s3 \<Rightarrow>
     (case spaces1 s3 of None \<Rightarrow> None | Some s4 \<Rightarrow>
     (case lit ''tinygo'' s4 of None \<Rightarrow> None | Some s5 \<Rightarrow>
     (case anyChar s5 of None \<Rightarrow> None | Some s6 \<Rightarrow>
     (case lit ''enable'' s6 of None \<Rightarrow> None | Some s7 \<Rightarrow>
      Some (optAnd (optChar CHR '')'' (spaces s7))))))))))"

text \<open>
  \<^verbatim>\<open>re.ReplaceAllString(s, "")\<close> for that expression: the leftmost match is deleted and
  the search goes on behind it (the expression matches no empty string).
\<close>

lemma lit_length: "lit p s = Some r \<Longrightarrow> length s = length p + length r"
  by (induction p s rule: lit.induct) (auto split: if_splits)

lemma spaces_length: "length (spaces s) \<le> length s"
  by (simp add: spaces_def length_dropWhile_le)

lemma spaces1_length: "spaces1 s = Some r \<Longrightarrow> length r < length s"
proof (cases s)
  case Nil
  assume "spaces1 s = Some r"
  with Nil show ?thesis by (simp add: spaces1_def)
next
  case (Cons x xs)
  assume "spaces1 s = Some r"
  with Cons have "r = spaces xs" by (simp add: spaces1_def split: if_splits)
  with Cons show ?thesis using spaces_length [of xs] by simp
qed

lemma optChar_length: "length (optChar c s) \<le> length s"
  by (simp add: optChar_def split: list.splits)

lemma optAnd_length: "length (optAnd s) \<le> length s"
proof (cases "spaces1 s")
  case None
  then show ?thesis by (simp add: optAnd_def)
next
  case (Some t)
  show ?thesis
  proof (cases "lit ''&&'' t")
    case None
    with Some show ?thesis by (simp add: optAnd_def)
  next
    case (Some u)
    with \<open>spaces1 s = Some t\<close> have "optAnd s = u" by (simp add: optAnd_def)
    moreover have "length u \<le> length t" using lit_length [OF Some] by linarith
    moreover have "length t < length s" using spaces1_length [OF \<open>spaces1 s = Some t\<close>] .
    ultimately show ?thesis by simp
  qed
qed

lemma anyChar_length: "anyChar s = Some r \<Longrightarrow> length r \<le> length s"
  by (cases s) (auto simp: anyChar_def split: if_splits)

lemma matchClause_length:
  assumes "matchClause s = Some r"
  shows "length r < length s"
proof -
  from assms obtain s1 s2 s3 s4 s5 s6 s7 where
    a: "lit ''!tinygo'' (spaces (optChar CHR ''('' s)) = Some s1" and
    b: "spaces1 s1 = Some s2" "lit ''||'' s2 = Some s3" "spaces1 s3 = Some s4"
       "lit ''tinygo'' s4 = Some s5" "anyChar s5 = Some s6" "lit ''enable'' s6 = Some s7" and
    c: "r = optAnd (optChar CHR '')'' (spaces s7))"
    unfolding matchClause_def by (auto split: option.splits simp del: lit.simps)
  have "length s1 \<le> length (spaces (optChar CHR ''('' s))"
    using lit_length [OF a] by simp
  also have "\<dots> \<le> length (optChar CHR ''('' s)"
    by (rule spaces_length)
  also have "\<dots> \<le> length s"
    by (rule optChar_length)
  finally have "length s1 \<le> length s" .
  moreover have "length s7 < length s1"
    using b(1,3) [THEN spaces1_length] b(2,4,6) [THEN lit_length] b(5) [THEN anyChar_length]
    by linarith
  moreover have "length r \<le> length s7"
  proof -
    have "length r \<le> length (optChar CHR '')'' (spaces s7))"
      unfolding c by (rule optAnd_length)
    also have "\<dots> \<le> length (spaces s7)" by (rule optChar_length)
    also have "\<dots> \<le> length s7" by (rule spaces_length)
    finally show ?thesis .
  qed
  ultimately show ?thesis by linarith
qed

function stripClause :: "string \<Rightarrow> string" where
  "stripClause [] = []"
| "stripClause (c # cs) =
     (case matchClause (c # cs) of
        Some rest \<Rightarrow> stripClause rest
      | None \<Rightarrow> c # stripClause cs)"
  by pat_completeness auto
termination
  by (relation "measure length") (auto dest: matchClause_length)

text \<open>\<^verbatim>\<open>^\s*//go:build\s*$\<close>: without the multi-line flag \<^verbatim>\<open>$\<close> is the end of the text.\<close>

definition emptyGoBuild :: "string \<Rightarrow> bool" where
  "emptyGoBuild s = (case lit ''//go:build'' (spaces s) of None \<Rightarrow> False
     | Some r \<Rightarrow> list_all isSpace r)"

subsection \<open>The comment model of a parsed file\<close>

text \<open>
  \<^verbatim>\<open>ast.Comment\<close>, \<^verbatim>\<open>ast.CommentGroup\<close> and \<^verbatim>\<open>ast.File\<close>. The rewriter reads and
  writes \<^verbatim>\<open>f.Comments\<close> only; \<open>Decls\<close> stands for everything else a file holds. A
  position \<^verbatim>\<open>token.Pos\<close> is an \<^typ>\<open>int\<close>. The groups of \<^verbatim>\<open>f.Comments\<close> are pointers, so
  an assignment to \<^verbatim>\<open>c.Text\<close> or \<^verbatim>\<open>cg.List\<close> changes the group in the list: here the
  loop returns the new list.
\<close>

datatype abort = LogFatal | Panic

type_synonym error = string

record Comment =
  Slash :: int
  Text :: string

record CommentGroup =
  List :: "Comment list"

record 'd File =
  Comments :: "CommentGroup list"
  Decls :: 'd

text \<open>
  \<^verbatim>\<open>parser.ParseFile\<close> (\<open>None\<close>: a parse error) and \<^verbatim>\<open>printer.Fprint\<close> under the
  configuration of the source (\<open>None\<close>: an error).
\<close>

record 'd GoLib =
  ParseFile :: "string \<Rightarrow> string \<Rightarrow> 'd File option"
  Fprint :: "'d File \<Rightarrow> string option"

text \<open>The files on disk, and the paths \<^verbatim>\<open>os.WriteFile\<close> fails on.\<close>

record World =
  files :: "string \<rightharpoonup> string"
  unwritable :: "string set"

text \<open>An early \<^verbatim>\<open>return\<close> from inside the loops, or the loop's result.\<close>

datatype 'a ctl = EarlyReturn | Continue 'a

subsection \<open>fixupFileConstraints\<close>

definition isGoBuild :: "Comment \<Rightarrow> bool" where
  "isGoBuild c = HasPrefix (Text c) goBuild"

text \<open>
  The body of the inner loop at the first comment \<open>c\<close> of a group that has the prefix;
  \<open>pre\<close> and \<open>post\<close> are the group's comments before and after it. The result is the
  group's new list.
\<close>

definition fixupComment :: "bool \<Rightarrow> Comment list \<Rightarrow> Comment \<Rightarrow> Comment list \<Rightarrow> Comment list ctl" where
  "fixupComment builds pre c post =
     (let contains = Contains (Text c) constraint in
      if (builds \<and> \<not> contains) \<or> (\<not> builds \<and> contains) then EarlyReturn
      else if builds then
        (let c' = c\<lparr>Text := stripClause (Text c)\<rparr> in
         if emptyGoBuild (Text c')
         then Continue (filter (\<lambda>comment. \<not> emptyGoBuild (Text comment)) (pre @ c' # post))
         else Continue (pre @ c' # post))
      else Continue (pre @ c\<lparr>Text := goBuild @ ''('' @ constraint @ '') && (''
                                   @ drop (length goBuild) (Text c) @ '')''\<rparr> # post))"

text \<open>
  The inner loop over one group: comments without the prefix are skipped
  (\<^verbatim>\<open>continue\<close>), the first one with it is handled and the loop is left (\<^verbatim>\<open>break\<close>).
  The flag says whether the group set \<^verbatim>\<open>goBuildPresent\<close>.
\<close>

definition fixupGroup :: "bool \<Rightarrow> CommentGroup \<Rightarrow> (CommentGroup \<times> bool) ctl" where
  "fixupGroup builds cg =
     (case dropWhile (\<lambda>c. \<not> isGoBuild c) (List cg) of
        [] \<Rightarrow> Continue (cg, False)
      | c # post \<Rightarrow>
          (case fixupComment builds (takeWhile (\<lambda>c. \<not> isGoBuild c) (List cg)) c post of
             EarlyReturn \<Rightarrow> EarlyReturn
           | Continue l \<Rightarrow> Continue (cg\<lparr>List := l\<rparr>, True)))"

text \<open>The outer loop: \<^verbatim>\<open>break\<close> left the inner loop only, so every group is visited.\<close>

fun fixupGroups :: "bool \<Rightarrow> CommentGroup list \<Rightarrow> (CommentGroup list \<times> bool) ctl" where
  "fixupGroups builds [] = Continue ([], False)"
| "fixupGroups builds (cg # cgs) =
     (case fixupGroup builds cg of
        EarlyReturn \<Rightarrow> EarlyReturn
      | Continue (cg', present) \<Rightarrow>
          (case fixupGroups builds cgs of
             EarlyReturn \<Rightarrow> EarlyReturn
           | Continue (cgs', present') \<Rightarrow> Continue (cg' # cgs', present \<or> present')))"

text \<open>
  The insertion of a new group of one comment, the prefix followed by the constraint.
  Its position is \<^verbatim>\<open>NoPos\<close> (zero) in a file without comments, and otherwise one past
  the first comment of the first group, behind which the group is put.
  \<^verbatim>\<open>f.Comments[0].List[0]\<close> panics on a first group with no comment.
\<close>

definition goBuildGroup :: "int \<Rightarrow> CommentGroup" where
  "goBuildGroup pos = \<lparr>List = [\<lparr>Slash = pos, Text = goBuild @ constraint\<rparr>]\<rparr>"

definition insertGoBuild :: "CommentGroup list \<Rightarrow> abort + CommentGroup list" where
  "insertGoBuild cgs =
     (case cgs of
        [] \<Rightarrow> Inr [goBuildGroup 0]
      | cg0 # rest \<Rightarrow>
          (case List cg0 of
             [] \<Rightarrow> Inl Panic
           | c0 # _ \<Rightarrow> Inr (cg0 # goBuildGroup (Slash c0 + 1) # rest)))"

text \<open>The loops and the insertion together: what the function does to \<^verbatim>\<open>f.Comments\<close>.\<close>

definition editComments :: "bool \<Rightarrow> CommentGroup list \<Rightarrow> (abort + CommentGroup list) ctl" where
  "editComments builds cgs =
     (case fixupGroups builds cgs of
        EarlyReturn \<Rightarrow> EarlyReturn
      | Continue (cgs', goBuildPresent) \<Rightarrow>
          Continue (if \<not> builds \<and> \<not> goBuildPresent then insertGoBuild cgs' else Inr cgs'))"

text \<open>
  The end of the function: the file is printed, compared with the bytes read and
  written back. The result is \<^verbatim>\<open>(mustDoWork, err)\<close> and the files after it.
\<close>

definition writeBack ::
  "'d GoLib \<Rightarrow> string \<Rightarrow> bool \<Rightarrow> string \<Rightarrow> 'd File \<Rightarrow> World \<Rightarrow> abort + ((bool \<times> error option) \<times> World)" where
  "writeBack L file checkonly b f w =
     (case Fprint L f of
        None \<Rightarrow> Inl LogFatal
      | Some buf \<Rightarrow>
          if b = buf then Inr ((False, None), w)
          else if checkonly then Inr ((True, None), w)
          else if file \<in> unwritable w then Inl LogFatal
          else Inr ((True, None), w\<lparr>files := (files w)(file \<mapsto> buf)\<rparr>))"

text \<open>
  The whole function. \<^verbatim>\<open>err\<close> is \<^verbatim>\<open>nil\<close> on every return: each error ends in
  \<^verbatim>\<open>log.Fatal\<close>.
\<close>

definition fixupFileConstraints ::
  "'d GoLib \<Rightarrow> string \<Rightarrow> bool \<Rightarrow> bool \<Rightarrow> World \<Rightarrow> abort + ((bool \<times> error option) \<times> World)" where
  "fixupFileConstraints L file builds checkonly w =
     (case files w file of None \<Rightarrow> Inl LogFatal | Some b \<Rightarrow>
     (case ParseFile L file b of None \<Rightarrow> Inl LogFatal | Some f \<Rightarrow>
     (case editComments builds (Comments f) of
        EarlyReturn \<Rightarrow> Inr ((False, None), w)
      | Continue (Inl a) \<Rightarrow> Inl a
      | Continue (Inr cgs') \<Rightarrow> writeBack L file checkonly b (f\<lparr>Comments := cgs'\<rparr>) w)))"

text \<open>
  The first comment of a file, in the order of its groups, that has the prefix, and what
  the rewriter's table calls the state of the file: no such line, or whether the line
  holds the constraint.
\<close>

definition firstGoBuild :: "CommentGroup list \<Rightarrow> Comment option" where
  "firstGoBuild cgs = find isGoBuild (concat (map List cgs))"

definition clauseState :: "CommentGroup list \<Rightarrow> bool option" where
  "clauseState cgs = map_option (\<lambda>c. Contains (Text c) constraint) (firstGoBuild cgs)"

text \<open>
  The comments of a file the rewriter has no business with: those that neither have the
  prefix nor are a bare \<^verbatim>\<open>//go:build\<close> line, in the order of the file.
\<close>

definition otherComments :: "CommentGroup list \<Rightarrow> Comment list" where
  "otherComments cgs =
     filter (\<lambda>c. \<not> isGoBuild c \<and> \<not> emptyGoBuild (Text c)) (concat (map List cgs))"

subsection \<open>fixupPkgConstraints\<close>

text \<open>
  What the program asks of its surroundings: a subprocess run in a directory (name,
  arguments, directory; the result is \<^verbatim>\<open>CombinedOutput\<close>'s), and the listing
  \<^verbatim>\<open>filepath.Glob(filepath.Join(dir, "*"))\<close> of a directory (\<open>None\<close>: an error).
\<close>

datatype runError = ExitError string | OtherError string

record Env =
  runCmd :: "string \<Rightarrow> string list \<Rightarrow> string \<Rightarrow> string \<times> runError option"
  Glob :: "string \<Rightarrow> string list option"

fun pkgLoop ::
  "'d GoLib \<Rightarrow> bool \<Rightarrow> bool \<Rightarrow> string list \<Rightarrow> bool \<Rightarrow> World \<Rightarrow> abort + ((bool \<times> error option) \<times> World)" where
  "pkgLoop L builds checkonly [] mustDoWork w = Inr ((mustDoWork, None), w)"
| "pkgLoop L builds checkonly (file # rest) mustDoWork w =
     (if \<not> HasSuffix file ''.go'' then pkgLoop L builds checkonly rest mustDoWork w
      else case fixupFileConstraints L file builds checkonly w of
             Inl a \<Rightarrow> Inl a
           | Inr ((mdw, err2), w') \<Rightarrow>
               (case err2 of
                  Some e \<Rightarrow> Inr ((mustDoWork, Some e), w')
                | None \<Rightarrow> pkgLoop L builds checkonly rest (mustDoWork \<or> mdw) w'))"

definition fixupPkgConstraints ::
  "Env \<Rightarrow> 'd GoLib \<Rightarrow> string \<Rightarrow> bool \<Rightarrow> bool \<Rightarrow> World \<Rightarrow> abort + ((bool \<times> error option) \<times> World)" where
  "fixupPkgConstraints E L dir builds checkonly w =
     (case Glob E dir of
        None \<Rightarrow> Inl LogFatal
      | Some fs \<Rightarrow> pkgLoop L builds checkonly fs False w)"

subsection \<open>build.go: one build of a directory\<close>

record BuildRes =
  err :: "string option"
  excluded :: bool
  output' :: string

definition addBuildTags :: "string \<rightharpoonup> string" where
  "addBuildTags = map_of
     [(''gzip'', ''noasm''), (''insmod'', ''noasm''), (''rmmod'', ''noasm''),
      (''bzimage'', ''noasm''), (''kconf'', ''noasm''), (''modprobe'', ''noasm''),
      (''console'', ''noasm''), (''init'', ''noasm'')]"

text \<open>
  \<^verbatim>\<open>strings.Split(dir, "/")\<close> has at least one part; the last one is what follows the
  last slash. A key the table lacks reads as the empty string.
\<close>

definition buildTags :: "string \<Rightarrow> string" where
  "buildTags dir =
     (case addBuildTags (rev (takeWhile (\<lambda>c. c \<noteq> CHR ''/'') (rev dir))) of
        None \<Rightarrow> [] | Some tags \<Rightarrow> tags)"

fun Join :: "string list \<Rightarrow> string \<Rightarrow> string" where
  "Join [] sep = []"
| "Join [x] sep = x"
| "Join (x # y # ys) sep = x @ sep @ Join (y # ys) sep"

definition isExcluded :: "Env \<Rightarrow> string \<Rightarrow> bool" where
  "isExcluded E dir =
     Contains
       (fst (runCmd E ''go''
          [''build'', ''-n'', ''-tags'',
           Join [''tinygo'', ''tinygo.enable'', ''purego'', ''osusergo'', ''math_big_pure_go'',
                 ''gc.precise'', ''scheduler.tasks'', ''serial.none''] '','']
          dir))
       ''build constraints exclude all Go files in''"

text \<open>
  \<^verbatim>\<open>build\<close> returns \<^verbatim>\<open>(res, err)\<close>. An error of the run that is no \<^verbatim>\<open>*exec.ExitError\<close>
  is returned as \<^verbatim>\<open>err\<close> with \<^verbatim>\<open>res.err\<close> left \<^verbatim>\<open>nil\<close>.
\<close>

definition build :: "Env \<Rightarrow> string \<Rightarrow> string \<Rightarrow> BuildRes \<times> error option" where
  "build E tinygo dir =
     (let tags = [''tinygo.enable''] @ (if buildTags dir \<noteq> [] then [buildTags dir] else []);
          run = runCmd E tinygo [''build'', ''-tags'', Join tags '',''] dir
      in case snd run of
           None \<Rightarrow> (\<lparr>err = None, excluded = False, output' = fst run\<rparr>, None)
         | Some (OtherError e) \<Rightarrow> (\<lparr>err = None, excluded = False, output' = fst run\<rparr>, Some e)
         | Some (ExitError x) \<Rightarrow>
             if isExcluded E dir
             then (\<lparr>err = Some x, excluded = True, output' = fst run\<rparr>, None)
             else (\<lparr>err = Some x, excluded = False, output' = fst run\<rparr>, None))"

text \<open>
  The four outcomes of a build, as \<^verbatim>\<open>BuildCode\<close> names them (the earlier \<^verbatim>\<open>build\<close>
  returned the code itself; this one returns the record it is read from).
\<close>

datatype BuildCode = BuildCodeSuccess | BuildCodeFailed | BuildCodeExclude | BuildCodeFatal

definition buildCode :: "BuildRes \<times> error option \<Rightarrow> BuildCode" where
  "buildCode r =
     (if snd r \<noteq> None then BuildCodeFatal
      else if excluded (fst r) then BuildCodeExclude
      else if BuildRes.err (fst r) \<noteq> None then BuildCodeFailed
      else BuildCodeSuccess)"

subsection \<open>main.go: workers and the collecting loop\<close>

record Config =
  pathMD :: string
  tinygo :: string
  nWorkers :: int
  checkOnly :: bool
  verbose :: bool
  dirs :: "string list"

record BuildStatus =
  passing :: "string list"
  failing :: "string list"
  excluded :: "string list"
  modified :: "string list"

record WorkerResult =
  dir :: string
  buildRes :: BuildRes
  didWork :: bool
  err :: "error option"

text \<open>One task of a worker: the result it sends, and the files after it.\<close>

definition worker ::
  "Env \<Rightarrow> 'd GoLib \<Rightarrow> Config \<Rightarrow> string \<Rightarrow> World \<Rightarrow> abort + (WorkerResult \<times> World)" where
  "worker E L conf d w =
     (let r = build E (tinygo conf) d in
      if snd r = None \<and> \<not> BuildRes.excluded (fst r)
      then (case fixupPkgConstraints E L d (BuildRes.err (fst r) = None) (checkOnly conf) w of
              Inl a \<Rightarrow> Inl a
            | Inr ((dw, e), w') \<Rightarrow>
                Inr (\<lparr>dir = d, buildRes = fst r, didWork = dw, err = e\<rparr>, w'))
      else Inr (\<lparr>dir = d, buildRes = fst r, didWork = False, err = snd r\<rparr>, w))"

text \<open>The body of the collecting loop behind its \<^verbatim>\<open>break\<close>: one result filed.\<close>

definition classify :: "WorkerResult \<Rightarrow> BuildStatus \<Rightarrow> BuildStatus" where
  "classify result status =
     (let status' =
        (if BuildRes.excluded (buildRes result)
         then status\<lparr>excluded := BuildStatus.excluded status @ [dir result]\<rparr>
         else if BuildRes.err (buildRes result) \<noteq> None
         then status\<lparr>failing := failing status @ [dir result]\<rparr>
         else status\<lparr>passing := passing status @ [dir result]\<rparr>)
      in if didWork result then status'\<lparr>modified := modified status' @ [dir result]\<rparr>
         else status')"

text \<open>The three branches of that body, as conditions on a result.\<close>

definition isPassing :: "WorkerResult \<Rightarrow> bool" where
  "isPassing r = (\<not> BuildRes.excluded (buildRes r) \<and> BuildRes.err (buildRes r) = None)"

definition isFailing :: "WorkerResult \<Rightarrow> bool" where
  "isFailing r = (\<not> BuildRes.excluded (buildRes r) \<and> BuildRes.err (buildRes r) \<noteq> None)"

definition isExcludedRes :: "WorkerResult \<Rightarrow> bool" where
  "isExcludedRes r = BuildRes.excluded (buildRes r)"

text \<open>The collecting loop over the results in the order they arrive.\<close>

fun collect :: "WorkerResult list \<Rightarrow> BuildStatus \<Rightarrow> BuildStatus" where
  "collect [] status = status"
| "collect (result # rest) status =
     (if WorkerResult.err result \<noteq> None then status
      else collect rest (classify result status))"

text \<open>
  The workers run concurrently, each task on a directory of its own, and send their
  results over an unbuffered channel. The model takes the order in which the results
  arrive as a parameter \<open>order\<close>, a permutation of \<^verbatim>\<open>conf.dirs\<close>, and runs the tasks one
  after the other in that order. Once the collecting loop has left by \<^verbatim>\<open>break\<close> no
  further result is received; what the workers still do then is not part of the model.
\<close>

fun runWorkers ::
  "Env \<Rightarrow> 'd GoLib \<Rightarrow> Config \<Rightarrow> string list \<Rightarrow> World \<Rightarrow> abort + (WorkerResult list \<times> World)" where
  "runWorkers E L conf [] w = Inr ([], w)"
| "runWorkers E L conf (d # ds) w =
     (case worker E L conf d w of
        Inl a \<Rightarrow> Inl a
      | Inr (r, w') \<Rightarrow>
          if WorkerResult.err r \<noteq> None then Inr ([r], w')
          else (case runWorkers E L conf ds w' of
                  Inl a \<Rightarrow> Inl a
                | Inr (rs, w'') \<Rightarrow> Inr (r # rs, w'')))"

definition emptyStatus :: BuildStatus where
  "emptyStatus = \<lparr>passing = [], failing = [], excluded = [], modified = []\<rparr>"

text \<open>
  \<^verbatim>\<open>buildDirs\<close> returns \<^verbatim>\<open>(status, err)\<close>. The named result \<^verbatim>\<open>err\<close> starts as \<^verbatim>\<open>nil\<close> and
  no statement of the function assigns it.
\<close>

definition buildDirs ::
  "Env \<Rightarrow> 'd GoLib \<Rightarrow> Config \<Rightarrow> string list \<Rightarrow> World \<Rightarrow> abort + ((BuildStatus \<times> error option) \<times> World)" where
  "buildDirs E L conf order w =
     (case runWorkers E L conf order w of
        Inl a \<Rightarrow> Inl a
      | Inr (results, w') \<Rightarrow> Inr ((collect results emptyStatus, None), w'))"

subsection \<open>A concrete run\<close>

text \<open>
  Three directories: \<^verbatim>\<open>cmds/core/ls\<close> builds, \<^verbatim>\<open>cmds/core/ps\<close> fails to build,
  \<^verbatim>\<open>cmds/core/bind\<close> fails and is excluded by its build constraints. In any other
  directory the toolchain cannot be started. The file of \<^verbatim>\<open>ls\<close> is a package clause,
  the file of \<^verbatim>\<open>ps\<close> has a copyright comment before it. The library is given by the files it is
  asked about: what each source parses to and what each file prints as.
\<close>

definition LF :: string where
  "LF = [CHR 0x0A]"

definition demoEnv :: Env where
  "demoEnv = \<lparr>
     runCmd = (\<lambda>name args d.
       if name = ''go''
       then (if d = ''cmds/core/bind''
             then (''package bind: build constraints exclude all Go files in cmds/core/bind'',
                   Some (ExitError ''exit status 1''))
             else ([], None))
       else if d = ''cmds/core/ls'' then ([], None)
       else if d = ''cmds/core/ps'' \<or> d = ''cmds/core/bind''
       then (''build failed'', Some (ExitError ''exit status 1''))
       else ([], Some (OtherError ''executable file not found in PATH''))),
     Glob = (\<lambda>d.
       if d = ''cmds/core/ls'' then Some [''cmds/core/ls/README.md'', ''cmds/core/ls/ls.go'']
       else if d = ''cmds/core/ps'' then Some [''cmds/core/ps/ps.go'']
       else Some [])\<rparr>"

definition tableLib :: "(string \<times> string File) list \<Rightarrow> (string File \<times> string) list \<Rightarrow> string GoLib" where
  "tableLib parses prints =
     \<lparr>ParseFile = (\<lambda>file src. map_of parses src), Fprint = (\<lambda>f. map_of prints f)\<rparr>"

text \<open>
  The sources of the examples, what \<^verbatim>\<open>go/parser\<close> reads them as (positions count bytes
  from one; comments separated by an empty line are groups of their own), and what
  \<^verbatim>\<open>go/printer\<close> prints for the files the examples print. A group without comments is
  skipped, and a single \<^verbatim>\<open>//go:build\<close> line is printed in the canonical form of its
  expression. A group inserted one position behind the first comment is printed on the
  line after that comment's group, with no empty line between. A group inserted at
  \<^verbatim>\<open>NoPos\<close> into a file without comments is printed first, and the package clause
  behind it comes out as \<^verbatim>\<open>packagemain\<close>, which does not parse.
\<close>

definition srcPlain :: string where
  "srcPlain = ''package main'' @ LF"

definition srcUnformatted :: string where
  "srcUnformatted = ''package  main'' @ LF"

definition srcTagged :: string where
  "srcTagged = ''//go:build !tinygo || tinygo.enable'' @ LF @ LF @ ''package main'' @ LF"

definition srcCopyright :: string where
  "srcCopyright = ''// Copyright'' @ LF @ LF @ ''package main'' @ LF"

definition srcCopyrightTagged :: string where
  "srcCopyrightTagged = ''// Copyright'' @ LF @ ''//go:build !tinygo || tinygo.enable''
     @ LF @ LF @ ''package main'' @ LF"

definition srcBroken :: string where
  "srcBroken = ''//go:build !tinygo || tinygo.enable'' @ LF @ LF @ ''packagemain'' @ LF"

definition srcTaggedUnformatted :: string where
  "srcTaggedUnformatted = ''//go:build !tinygo || tinygo.enable'' @ LF @ LF
     @ ''package  main'' @ LF"

definition srcTwice :: string where
  "srcTwice = ''//go:build !tinygo || tinygo.enable'' @ LF
     @ ''//go:build !tinygo || tinygo.enable'' @ LF @ LF @ ''package main'' @ LF"

definition srcLinuxTwice :: string where
  "srcLinuxTwice = ''//go:build linux'' @ LF @ LF @ ''//go:build linux'' @ LF @ LF
     @ ''package main'' @ LF"

definition srcLinuxThenTagged :: string where
  "srcLinuxThenTagged = ''//go:build linux'' @ LF @ LF
     @ ''//go:build !tinygo || tinygo.enable'' @ LF @ LF @ ''package main'' @ LF"

definition srcLinuxAndTagged :: string where
  "srcLinuxAndTagged = ''//go:build linux && (!tinygo || tinygo.enable)'' @ LF @ LF
     @ ''package main'' @ LF"

definition srcLinux :: string where
  "srcLinux = ''//go:build linux'' @ LF @ LF @ ''package main'' @ LF"

definition srcLinuxTagged :: string where
  "srcLinuxTagged = ''//go:build (!tinygo || tinygo.enable) && linux'' @ LF @ LF
     @ ''package main'' @ LF"

definition fileOf :: "(int \<times> string) list list \<Rightarrow> string File" where
  "fileOf groups =
     \<lparr>Comments = map (\<lambda>g. \<lparr>List = map (\<lambda>(pos, t). \<lparr>Slash = pos, Text = t\<rparr>) g\<rparr>) groups,
      Decls = ''package main''\<rparr>"

definition filePlain :: "string File" where
  "filePlain = fileOf []"

definition fileTagged :: "int \<Rightarrow> string File" where
  "fileTagged pos = fileOf [[(pos, ''//go:build !tinygo || tinygo.enable'')]]"

definition demoLib :: "string GoLib" where
  "demoLib = tableLib
     [(srcPlain, filePlain),
      (srcUnformatted, filePlain),
      (srcTagged, fileTagged 1),
      (srcTaggedUnformatted, fileTagged 1),
      (srcCopyright, fileOf [[(1, ''// Copyright'')]]),
      (srcCopyrightTagged,
         fileOf [[(1, ''// Copyright''), (14, ''//go:build !tinygo || tinygo.enable'')]]),
      (srcTwice,
         fileOf [[(1, ''//go:build !tinygo || tinygo.enable''),
                  (37, ''//go:build !tinygo || tinygo.enable'')]]),
      (srcLinux, fileOf [[(1, ''//go:build linux'')]]),
      (srcLinuxTwice, fileOf [[(1, ''//go:build linux'')], [(19, ''//go:build linux'')]]),
      (srcLinuxThenTagged,
         fileOf [[(1, ''//go:build linux'')], [(19, ''//go:build !tinygo || tinygo.enable'')]]),
      (srcLinuxAndTagged, fileOf [[(1, ''//go:build linux && (!tinygo || tinygo.enable)'')]])]
     [(filePlain, srcPlain),
      (fileTagged 0, srcBroken),
      (fileTagged 1, srcTagged),
      (fileTagged 37, srcTagged),
      (fileOf [[]], srcPlain),
      (fileOf [[(1, ''// Copyright'')]], srcCopyright),
      (fileOf [[(1, ''//go:build (!tinygo || tinygo.enable) && (linux)'')]], srcLinuxTagged),
      (fileOf [[(1, ''// Copyright'')], [(2, ''//go:build !tinygo || tinygo.enable'')]],
         srcCopyrightTagged)]"

definition demoWorld :: World where
  "demoWorld = \<lparr>files = [''cmds/core/ls/ls.go'' \<mapsto> srcPlain, ''cmds/core/ps/ps.go'' \<mapsto> srcCopyright],
                 unwritable = {}\<rparr>"

definition demoConf :: Config where
  "demoConf = \<lparr>pathMD = ''-'', tinygo = ''tinygo'', nWorkers = 2, checkOnly = False,
                verbose = False,
                dirs = [''cmds/core/ls'', ''cmds/core/ps'', ''cmds/core/bind'']\<rparr>"

definition demoStatus :: BuildStatus where
  "demoStatus = \<lparr>passing = [''cmds/core/ls''], failing = [''cmds/core/ps''],
                  excluded = [''cmds/core/bind''], modified = [''cmds/core/ps'']\<rparr>"

subsection \<open>The concrete run, evaluated\<close>

lemma demo_build:
  "build demoEnv ''tinygo'' ''cmds/core/ls'' = (\<lparr>BuildRes.err = None, BuildRes.excluded = False, output' = []\<rparr>, None)"
  "build demoEnv ''tinygo'' ''cmds/core/ps''
     = (\<lparr>BuildRes.err = Some ''exit status 1'', BuildRes.excluded = False, output' = ''build failed''\<rparr>, None)"
  "build demoEnv ''tinygo'' ''cmds/core/bind''
     = (\<lparr>BuildRes.err = Some ''exit status 1'', BuildRes.excluded = True, output' = ''build failed''\<rparr>, None)"
  "build demoEnv ''tinygo'' ''cmds/core/cat''
     = (\<lparr>BuildRes.err = None, BuildRes.excluded = False, output' = []\<rparr>, Some ''executable file not found in PATH'')"
  by (simp_all add: build_def demoEnv_def buildTags_def addBuildTags_def isExcluded_def
      Contains_def sublist_code(3) Let_def)

lemma fixupFile_skips:
  assumes "files w file = Some b" and "ParseFile L file b = Some f"
      and "editComments builds (Comments f) = EarlyReturn"
  shows "fixupFileConstraints L file builds checkonly w = Inr ((False, None), w)"
  using assms by (simp add: fixupFileConstraints_def)

lemma fixupFile_same:
  assumes "files w file = Some b" and "ParseFile L file b = Some f"
      and "editComments builds (Comments f) = Continue (Inr cgs')"
      and "Fprint L (f\<lparr>Comments := cgs'\<rparr>) = Some b"
  shows "fixupFileConstraints L file builds checkonly w = Inr ((False, None), w)"
  using assms by (simp add: fixupFileConstraints_def writeBack_def)

lemma fixupFile_checks:
  assumes "files w file = Some b" and "ParseFile L file b = Some f"
      and "editComments builds (Comments f) = Continue (Inr cgs')"
      and "Fprint L (f\<lparr>Comments := cgs'\<rparr>) = Some buf" and "b \<noteq> buf"
  shows "fixupFileConstraints L file builds True w = Inr ((True, None), w)"
  using assms by (simp add: fixupFileConstraints_def writeBack_def)

lemma fixupFile_writes:
  assumes "files w file = Some b" and "ParseFile L file b = Some f"
      and "editComments builds (Comments f) = Continue (Inr cgs')"
      and "Fprint L (f\<lparr>Comments := cgs'\<rparr>) = Some buf" and "b \<noteq> buf"
      and "file \<notin> unwritable w"
  shows "fixupFileConstraints L file builds False w
           = Inr ((True, None), w\<lparr>files := (files w)(file \<mapsto> buf)\<rparr>)"
  using assms by (simp add: fixupFileConstraints_def writeBack_def)

lemma demo_files:
  "files demoWorld ''cmds/core/ls/ls.go'' = Some srcPlain"
  "files demoWorld ''cmds/core/ps/ps.go'' = Some srcCopyright"
  "unwritable demoWorld = {}"
  by (simp_all add: demoWorld_def)

lemma demo_fixup_ls:
  "fixupFileConstraints demoLib ''cmds/core/ls/ls.go'' True False demoWorld
     = Inr ((False, None), demoWorld)"
proof (rule fixupFile_same [where f = filePlain and cgs' = "[]"])
  show "files demoWorld ''cmds/core/ls/ls.go'' = Some srcPlain" by (rule demo_files)
  show "ParseFile demoLib ''cmds/core/ls/ls.go'' srcPlain = Some filePlain" by code_simp
  show "editComments True (Comments filePlain) = Continue (Inr [])" by code_simp
  show "Fprint demoLib (filePlain\<lparr>Comments := []\<rparr>) = Some srcPlain" by code_simp
qed

lemma demo_fixup_ps:
  "fixupFileConstraints demoLib ''cmds/core/ps/ps.go'' False False demoWorld
     = Inr ((True, None),
            demoWorld\<lparr>files := (files demoWorld)(''cmds/core/ps/ps.go'' \<mapsto> srcCopyrightTagged)\<rparr>)"
proof (rule fixupFile_writes
    [where f = "fileOf [[(1, ''// Copyright'')]]"
       and cgs' = "[\<lparr>List = [\<lparr>Slash = 1, Text = ''// Copyright''\<rparr>]\<rparr>, goBuildGroup 2]"])
  show "files demoWorld ''cmds/core/ps/ps.go'' = Some srcCopyright" by (rule demo_files)
  show "ParseFile demoLib ''cmds/core/ps/ps.go'' srcCopyright = Some (fileOf [[(1, ''// Copyright'')]])"
    by code_simp
  show "editComments False (Comments (fileOf [[(1, ''// Copyright'')]]))
          = Continue (Inr [\<lparr>List = [\<lparr>Slash = 1, Text = ''// Copyright''\<rparr>]\<rparr>, goBuildGroup 2])"
    by code_simp
  show "Fprint demoLib
          (fileOf [[(1, ''// Copyright'')]]
             \<lparr>Comments := [\<lparr>List = [\<lparr>Slash = 1, Text = ''// Copyright''\<rparr>]\<rparr>, goBuildGroup 2]\<rparr>)
          = Some srcCopyrightTagged"
    by code_simp
  show "srcCopyright \<noteq> srcCopyrightTagged" by code_simp
  show "''cmds/core/ps/ps.go'' \<notin> unwritable demoWorld" by (simp add: demo_files)
qed

lemma demo_conf:
  "tinygo demoConf = ''tinygo''"
  "checkOnly demoConf = False"
  "dirs demoConf = [''cmds/core/ls'', ''cmds/core/ps'', ''cmds/core/bind'']"
  by (simp_all add: demoConf_def)

lemma demo_glob:
  "Glob demoEnv ''cmds/core/ls'' = Some [''cmds/core/ls/README.md'', ''cmds/core/ls/ls.go'']"
  "Glob demoEnv ''cmds/core/ps'' = Some [''cmds/core/ps/ps.go'']"
  by (simp_all add: demoEnv_def)

lemma demo_worker_ls:
  "worker demoEnv demoLib demoConf ''cmds/core/ls'' demoWorld
     = Inr (\<lparr>dir = ''cmds/core/ls'',
              buildRes = \<lparr>BuildRes.err = None, BuildRes.excluded = False, output' = []\<rparr>,
              didWork = False, err = None\<rparr>, demoWorld)"
  by (simp add: worker_def demo_conf demo_build fixupPkgConstraints_def demo_glob
      HasSuffix_def suffix_to_prefix demo_fixup_ls)

lemma demo_worker_ps:
  "worker demoEnv demoLib demoConf ''cmds/core/ps'' demoWorld
     = Inr (\<lparr>dir = ''cmds/core/ps'',
              buildRes = \<lparr>BuildRes.err = Some ''exit status 1'', BuildRes.excluded = False,
                          output' = ''build failed''\<rparr>,
              didWork = True, err = None\<rparr>,
            demoWorld\<lparr>files := (files demoWorld)(''cmds/core/ps/ps.go'' \<mapsto> srcCopyrightTagged)\<rparr>)"
  by (simp add: worker_def demo_conf demo_build fixupPkgConstraints_def demo_glob
      HasSuffix_def suffix_to_prefix demo_fixup_ps)

lemma demo_worker_bind:
  "worker demoEnv demoLib demoConf ''cmds/core/bind'' w
     = Inr (\<lparr>dir = ''cmds/core/bind'',
              buildRes = \<lparr>BuildRes.err = Some ''exit status 1'', BuildRes.excluded = True,
                          output' = ''build failed''\<rparr>,
              didWork = False, err = None\<rparr>, w)"
  by (simp add: worker_def demo_conf demo_build)

lemma demo_worker_cat:
  "worker demoEnv demoLib demoConf ''cmds/core/cat'' w
     = Inr (\<lparr>dir = ''cmds/core/cat'',
              buildRes = \<lparr>BuildRes.err = None, BuildRes.excluded = False, output' = []\<rparr>,
              didWork = False, err = Some ''executable file not found in PATH''\<rparr>, w)"
  by (simp add: worker_def demo_conf demo_build)

lemma demo_run:
  "buildDirs demoEnv demoLib demoConf [''cmds/core/bind'', ''cmds/core/ls'', ''cmds/core/ps''] demoWorld
     = Inr ((demoStatus, None),
            demoWorld\<lparr>files := (files demoWorld)(''cmds/core/ps/ps.go'' \<mapsto> srcCopyrightTagged)\<rparr>)"
  by (simp add: buildDirs_def demo_worker_bind demo_worker_ls demo_worker_ps classify_def
      emptyStatus_def demoStatus_def)

section \<open>Properties of the collecting loop\<close>

lemma fixupFileConstraints_err:
  "fixupFileConstraints L file builds checkonly w = Inr ((m, e), w') \<Longrightarrow> e = None"
  unfolding fixupFileConstraints_def writeBack_def
  by (auto split: option.splits ctl.splits sum.splits if_splits)

lemma pkgLoop_err:
  "pkgLoop L builds checkonly fs m0 w = Inr ((m, e), w') \<Longrightarrow> e = None"
proof (induction fs arbitrary: m0 w)
  case Nil
  then show ?case by simp
next
  case (Cons path rest)
  show ?case
  proof (cases "HasSuffix path ''.go''")
    case False
    with Cons show ?thesis by simp
  next
    case True
    with Cons.prems obtain mdw e2 w1 where
      f: "fixupFileConstraints L path builds checkonly w = Inr ((mdw, e2), w1)"
      by (auto split: sum.splits)
    from fixupFileConstraints_err [OF f] have "e2 = None" .
    with Cons.prems True f
    have "pkgLoop L builds checkonly rest (m0 \<or> mdw) w1 = Inr ((m, e), w')"
      by simp
    then show ?thesis by (rule Cons.IH)
  qed
qed

lemma fixupPkgConstraints_err:
  "fixupPkgConstraints E L d builds checkonly w = Inr ((m, e), w') \<Longrightarrow> e = None"
  unfolding fixupPkgConstraints_def
  by (auto split: option.splits dest: pkgLoop_err)

lemma worker_result:
  assumes "worker E L conf d w = Inr (r, w')"
  shows "dir r = d \<and> buildRes r = fst (build E (tinygo conf) d)
         \<and> WorkerResult.err r = snd (build E (tinygo conf) d)"
proof (cases "snd (build E (tinygo conf) d) = None \<and> \<not> BuildRes.excluded (fst (build E (tinygo conf) d))")
  case True
  with assms obtain dw e where
    f: "fixupPkgConstraints E L d (BuildRes.err (fst (build E (tinygo conf) d)) = None) (checkOnly conf) w
          = Inr ((dw, e), w')"
    and r: "r = \<lparr>dir = d, buildRes = fst (build E (tinygo conf) d), didWork = dw, err = e\<rparr>"
    by (auto simp: worker_def Let_def split: sum.splits)
  from fixupPkgConstraints_err [OF f] have "e = None" .
  with r True show ?thesis by simp
next
  case False
  with assms show ?thesis by (auto simp: worker_def Let_def)
qed

lemma runWorkers_results:
  assumes "runWorkers E L conf ds w = Inr (rs, w')"
      and "\<forall>d\<in>set ds. snd (build E (tinygo conf) d) = None"
  shows "map dir rs = ds
         \<and> (\<forall>r\<in>set rs. buildRes r = fst (build E (tinygo conf) (dir r)) \<and> WorkerResult.err r = None)"
  using assms
proof (induction ds arbitrary: w rs)
  case Nil
  then show ?case by simp
next
  case (Cons d ds)
  from Cons.prems(1) obtain r w1 where wk: "worker E L conf d w = Inr (r, w1)"
    by (auto split: sum.splits)
  note wr = worker_result [OF wk]
  from Cons.prems(2) have nf: "snd (build E (tinygo conf) d) = None" by simp
  with wr have e: "WorkerResult.err r = None" by simp
  with Cons.prems(1) wk obtain rs1 where
    rest: "runWorkers E L conf ds w1 = Inr (rs1, w')" and rs: "rs = r # rs1"
    by (auto split: sum.splits)
  from Cons.IH [OF rest] Cons.prems(2)
  have "map dir rs1 = ds
        \<and> (\<forall>r\<in>set rs1. buildRes r = fst (build E (tinygo conf) (dir r)) \<and> WorkerResult.err r = None)"
    by simp
  with rs wr e show ?case by simp
qed

lemma classify_fields:
  "passing (classify r st) = passing st @ (if isPassing r then [dir r] else [])"
  "failing (classify r st) = failing st @ (if isFailing r then [dir r] else [])"
  "BuildStatus.excluded (classify r st) = BuildStatus.excluded st @ (if isExcludedRes r then [dir r] else [])"
  "modified (classify r st) = modified st @ (if didWork r then [dir r] else [])"
  by (simp_all add: classify_def Let_def isPassing_def isFailing_def isExcludedRes_def)

lemma collect_fields:
  assumes "\<forall>r\<in>set rs. WorkerResult.err r = None"
  shows "passing (collect rs st) = passing st @ map dir (filter isPassing rs)
       \<and> failing (collect rs st) = failing st @ map dir (filter isFailing rs)
       \<and> BuildStatus.excluded (collect rs st) = BuildStatus.excluded st @ map dir (filter isExcludedRes rs)
       \<and> modified (collect rs st) = modified st @ map dir (filter didWork rs)"
  using assms by (induction rs arbitrary: st) (simp_all add: classify_fields)

lemma three_way_mset:
  "mset (map dir (filter isPassing rs)) + mset (map dir (filter isFailing rs))
     + mset (map dir (filter isExcludedRes rs)) = mset (map dir rs)"
  by (induction rs) (auto simp: isPassing_def isFailing_def isExcludedRes_def)

lemma buildCode_fatal: "buildCode r \<noteq> BuildCodeFatal \<longleftrightarrow> snd r = None"
  by (simp add: buildCode_def)

section \<open>The claims about the orchestrator\<close>

text \<open>
  C2. In a run in which no build is fatal, every directory of the input is in exactly
  one of \<open>passing\<close>, \<open>failing\<close> and \<open>excluded\<close>, whatever the order in which the results
  arrive; the three lists together hold the input's directories, each as often as the
  input does.
\<close>

theorem classification_exactly_one:
  assumes run: "buildDirs E L conf order w = Inr ((status, e), w')"
      and perm: "mset order = mset (dirs conf)"
      and nofatal: "\<forall>d\<in>set (dirs conf). buildCode (build E (tinygo conf) d) \<noteq> BuildCodeFatal"
      and d: "d \<in> set (dirs conf)"
  shows "((d \<in> set (passing status) \<and> d \<notin> set (failing status) \<and> d \<notin> set (BuildStatus.excluded status))
        \<or> (d \<notin> set (passing status) \<and> d \<in> set (failing status) \<and> d \<notin> set (BuildStatus.excluded status))
        \<or> (d \<notin> set (passing status) \<and> d \<notin> set (failing status) \<and> d \<in> set (BuildStatus.excluded status)))
       \<and> mset (passing status @ failing status @ BuildStatus.excluded status) = mset (dirs conf)"
proof -
  from run obtain rs where
    rw: "runWorkers E L conf order w = Inr (rs, w')" and st: "status = collect rs emptyStatus"
    by (auto simp: buildDirs_def split: sum.splits)
  from perm have sets: "set order = set (dirs conf)" by (rule mset_eq_setD)
  with nofatal have nf: "\<forall>x\<in>set order. snd (build E (tinygo conf) x) = None"
    by (simp add: buildCode_fatal)
  from runWorkers_results [OF rw nf] have
    dirs: "map dir rs = order" and
    res: "\<forall>r\<in>set rs. buildRes r = fst (build E (tinygo conf) (dir r)) \<and> WorkerResult.err r = None"
    by simp_all
  from res have "\<forall>r\<in>set rs. WorkerResult.err r = None" by simp
  from collect_fields [OF this, of emptyStatus] st have
    p: "passing status = map dir (filter isPassing rs)" and
    f: "failing status = map dir (filter isFailing rs)" and
    x: "BuildStatus.excluded status = map dir (filter isExcludedRes rs)"
    by (simp_all add: emptyStatus_def)
  let ?c = "fst (build E (tinygo conf) d)"
  have same: "buildRes r = ?c" if "r \<in> set rs" "dir r = d" for r
    using that res by auto
  have P: "d \<in> set (passing status) \<longleftrightarrow> (\<not> BuildRes.excluded ?c \<and> BuildRes.err ?c = None)"
  proof
    assume "d \<in> set (passing status)"
    then obtain r where "r \<in> set rs" "dir r = d" "isPassing r" unfolding p by auto
    with same [of r] show "\<not> BuildRes.excluded ?c \<and> BuildRes.err ?c = None"
      by (simp add: isPassing_def)
  next
    assume c: "\<not> BuildRes.excluded ?c \<and> BuildRes.err ?c = None"
    from d sets dirs obtain r where r: "r \<in> set rs" "dir r = d" by force
    with same [of r] c have "isPassing r" by (simp add: isPassing_def)
    with r show "d \<in> set (passing status)" unfolding p by force
  qed
  have F: "d \<in> set (failing status) \<longleftrightarrow> (\<not> BuildRes.excluded ?c \<and> BuildRes.err ?c \<noteq> None)"
  proof
    assume "d \<in> set (failing status)"
    then obtain r where "r \<in> set rs" "dir r = d" "isFailing r" unfolding f by auto
    with same [of r] show "\<not> BuildRes.excluded ?c \<and> BuildRes.err ?c \<noteq> None"
      by (simp add: isFailing_def)
  next
    assume c: "\<not> BuildRes.excluded ?c \<and> BuildRes.err ?c \<noteq> None"
    from d sets dirs obtain r where r: "r \<in> set rs" "dir r = d" by force
    with same [of r] c have "isFailing r" by (simp add: isFailing_def)
    with r show "d \<in> set (failing status)" unfolding f by force
  qed
  have X: "d \<in> set (BuildStatus.excluded status) \<longleftrightarrow> BuildRes.excluded ?c"
  proof
    assume "d \<in> set (BuildStatus.excluded status)"
    then obtain r where "r \<in> set rs" "dir r = d" "isExcludedRes r" unfolding x by auto
    with same [of r] show "BuildRes.excluded ?c"
      by (simp add: isExcludedRes_def)
  next
    assume c: "BuildRes.excluded ?c"
    from d sets dirs obtain r where r: "r \<in> set rs" "dir r = d" by force
    with same [of r] c have "isExcludedRes r" by (simp add: isExcludedRes_def)
    with r show "d \<in> set (BuildStatus.excluded status)" unfolding x by force
  qed
  have "mset (passing status @ failing status @ BuildStatus.excluded status) = mset (map dir rs)"
    unfolding p f x using three_way_mset [of rs] by (simp add: ac_simps)
  with dirs perm have M: "mset (passing status @ failing status @ BuildStatus.excluded status) = mset (dirs conf)"
    by simp
  from P F X M show ?thesis by blast
qed

theorem classification_exactly_one_witness:
  "buildDirs demoEnv demoLib demoConf [''cmds/core/bind'', ''cmds/core/ls'', ''cmds/core/ps''] demoWorld
     = Inr ((demoStatus, None),
            demoWorld\<lparr>files := (files demoWorld)(''cmds/core/ps/ps.go'' \<mapsto> srcCopyrightTagged)\<rparr>)
   \<and> ''cmds/core/ps'' \<notin> set (passing demoStatus)
   \<and> ''cmds/core/ps'' \<in> set (failing demoStatus)
   \<and> ''cmds/core/ps'' \<notin> set (BuildStatus.excluded demoStatus)
   \<and> mset (passing demoStatus @ failing demoStatus @ BuildStatus.excluded demoStatus)
       = mset (dirs demoConf)"
proof -
  have perm: "mset [''cmds/core/bind'', ''cmds/core/ls'', ''cmds/core/ps''] = mset (dirs demoConf)"
    by (simp add: demo_conf)
  have nofatal: "\<forall>d\<in>set (dirs demoConf). buildCode (build demoEnv (tinygo demoConf) d) \<noteq> BuildCodeFatal"
    by (simp add: demo_conf demo_build buildCode_def)
  have d: "''cmds/core/ps'' \<in> set (dirs demoConf)"
    by (simp add: demo_conf)
  from classification_exactly_one [OF demo_run perm nofatal d] demo_run
  show ?thesis by (simp add: demoStatus_def demo_conf)
qed

text \<open>
  C10. A result that carries an error is filed nowhere and ends the loop: the status
  is the one the results before it gave, whatever follows.
\<close>

theorem collect_stops_at_error:
  assumes "\<forall>r\<in>set before. WorkerResult.err r = None"
      and "WorkerResult.err result \<noteq> None"
  shows "collect (before @ result # rest) status = collect before status"
  using assms by (induction before arbitrary: status) simp_all

theorem collect_stops_at_error_witness:
  "collect
     ([\<lparr>dir = ''cmds/core/ls'',
        buildRes = \<lparr>BuildRes.err = None, BuildRes.excluded = False, output' = []\<rparr>,
        didWork = False, err = None\<rparr>]
      @ \<lparr>dir = ''cmds/core/cat'',
          buildRes = \<lparr>BuildRes.err = None, BuildRes.excluded = False, output' = []\<rparr>,
          didWork = False, err = Some ''executable file not found in PATH''\<rparr>
      # [\<lparr>dir = ''cmds/core/ps'',
          buildRes = \<lparr>BuildRes.err = Some ''exit status 1'', BuildRes.excluded = False,
                      output' = ''build failed''\<rparr>,
          didWork = True, err = None\<rparr>])
     emptyStatus
   = \<lparr>passing = [''cmds/core/ls''], failing = [], excluded = [], modified = []\<rparr>"
  using collect_stops_at_error
    [of "[\<lparr>dir = ''cmds/core/ls'',
           buildRes = \<lparr>BuildRes.err = None, BuildRes.excluded = False, output' = []\<rparr>,
           didWork = False, err = None\<rparr>]"
        "\<lparr>dir = ''cmds/core/cat'',
          buildRes = \<lparr>BuildRes.err = None, BuildRes.excluded = False, output' = []\<rparr>,
          didWork = False, err = Some ''executable file not found in PATH''\<rparr>"
        "[\<lparr>dir = ''cmds/core/ps'',
          buildRes = \<lparr>BuildRes.err = Some ''exit status 1'', BuildRes.excluded = False,
                      output' = ''build failed''\<rparr>,
          didWork = True, err = None\<rparr>]"
        emptyStatus]
  by (simp add: classify_def emptyStatus_def)

text \<open>
  C1. \<^verbatim>\<open>buildDirs\<close> never assigns its result \<^verbatim>\<open>err\<close>: when the toolchain cannot be
  started in \<^verbatim>\<open>cmds/core/cat\<close> the loop stops there, and the caller gets the status so
  far with a \<^verbatim>\<open>nil\<close> error.
\<close>

theorem buildDirs_fatal_returns_nil:
  "buildDirs demoEnv demoLib demoConf [''cmds/core/bind'', ''cmds/core/cat'', ''cmds/core/ls''] demoWorld
     = Inr ((\<lparr>passing = [], failing = [], excluded = [''cmds/core/bind''], modified = []\<rparr>, None),
            demoWorld)
   \<and> buildCode (build demoEnv (tinygo demoConf) ''cmds/core/cat'') = BuildCodeFatal"
  by (simp add: buildDirs_def demo_worker_bind demo_worker_cat classify_def emptyStatus_def
      demo_conf demo_build buildCode_def)

lemma pkgLoop_go_files:
  "pkgLoop L builds checkonly fs m w
     = pkgLoop L builds checkonly (filter (\<lambda>f. HasSuffix f ''.go'') fs) m w"
  by (induction fs arbitrary: m w) (simp_all split: sum.splits prod.splits option.splits)

text \<open>
  The loop of \<^verbatim>\<open>fixupPkgConstraints\<close> is the rewriter run on one \<^verbatim>\<open>.go\<close> file of the
  listing after the other, each on the files the one before left, until one aborts;
  \<^verbatim>\<open>mustDoWork\<close> says whether one of them reported a change.
\<close>

lemma fold_aborted:
  fixes step :: "string \<Rightarrow> abort + (bool \<times> World) \<Rightarrow> abort + (bool \<times> World)"
  assumes "\<And>x a. step x (Inl a) = Inl a"
  shows "fold step fs (Inl a) = Inl a"
  using assms by (induction fs) simp_all

lemma pkgLoop_fold:
  fixes L :: "'d GoLib"
  defines "step \<equiv> \<lambda>builds checkonly path acc.
     case acc of
       Inl a \<Rightarrow> Inl a
     | Inr (changed, w1) \<Rightarrow>
         (case fixupFileConstraints L path builds checkonly w1 of
            Inl a \<Rightarrow> Inl a
          | Inr ((mdw, e), w2) \<Rightarrow> Inr (changed \<or> mdw, w2))"
  shows "pkgLoop L builds checkonly fs m w =
           (case fold (step builds checkonly) (filter (\<lambda>f. HasSuffix f ''.go'') fs) (Inr (m, w)) of
              Inl a \<Rightarrow> Inl a
            | Inr (changed, w') \<Rightarrow> Inr ((changed, None), w'))"
proof (induction fs arbitrary: m w)
  case Nil
  show ?case by simp
next
  case (Cons path rest)
  have ab: "fold (step builds checkonly) xs (Inl a) = Inl a" for xs a
    by (rule fold_aborted) (simp add: step_def)
  show ?case
  proof (cases "HasSuffix path ''.go''")
    case False
    with Cons show ?thesis by simp
  next
    case True
    show ?thesis
    proof (cases "fixupFileConstraints L path builds checkonly w")
      case (Inl a)
      then have "step builds checkonly path (Inr (m, w)) = Inl a" by (simp add: step_def)
      with True Inl show ?thesis by (simp add: ab)
    next
      case (Inr res)
      then obtain mdw e w2 where res: "res = ((mdw, e), w2)" by (cases res) auto
      with Inr fixupFileConstraints_err have e: "e = None" by blast
      from Inr res have "step builds checkonly path (Inr (m, w)) = Inr (m \<or> mdw, w2)"
        by (simp add: step_def)
      with True Inr res e Cons.IH [of "m \<or> mdw" w2] show ?thesis by simp
    qed
  qed
qed

lemma buildCode_build:
  "buildCode (build E t d) =
     (case snd (runCmd E t
                  [''build'', ''-tags'',
                   Join ([''tinygo.enable''] @ (if buildTags d \<noteq> [] then [buildTags d] else [])) '','']
                  d) of
        None \<Rightarrow> BuildCodeSuccess
      | Some (OtherError e) \<Rightarrow> BuildCodeFatal
      | Some (ExitError x) \<Rightarrow> if isExcluded E d then BuildCodeExclude else BuildCodeFailed)"
  by (simp add: build_def buildCode_def Let_def split: option.splits runError.splits)

text \<open>
  C9. What a worker does with a directory follows the outcome of its build: success
  when the toolchain ends without error, fatal when it cannot be run, and after an exit
  with an error excluded or failed as \<^verbatim>\<open>isExcluded\<close> says. After a success or a failure
  the rewriter \<^verbatim>\<open>fixupFileConstraints\<close> is run on every \<^verbatim>\<open>.go\<close> file of the directory's
  listing, in the listing's order and each on the files the one before left, with
  \<open>desired\<close> true exactly for a failure (the rewriter's argument \<^verbatim>\<open>builds\<close> is its
  negation) and with the configuration's \<^verbatim>\<open>checkOnly\<close>; \<^verbatim>\<open>didWork\<close> says whether one of
  these runs reported a change. After an exclusion or a fatal error the worker sends
  its result with \<^verbatim>\<open>didWork\<close> false and the files are as they were: the rewriter is not
  run.
\<close>

theorem worker_edits_by_outcome:
  "worker E L conf d w =
     (let r = build E (tinygo conf) d;
          rewrite = (\<lambda>desired path acc.
            case acc of
              Inl a \<Rightarrow> Inl a
            | Inr (changed, w1) \<Rightarrow>
                (case fixupFileConstraints L path (\<not> desired) (checkOnly conf) w1 of
                   Inl a \<Rightarrow> Inl a
                 | Inr ((mdw, e), w2) \<Rightarrow> Inr (changed \<or> mdw, w2)));
          edit = (\<lambda>desired.
            case Glob E d of
              None \<Rightarrow> Inl LogFatal
            | Some fs \<Rightarrow>
                (case fold (rewrite desired) (filter (\<lambda>f. HasSuffix f ''.go'') fs) (Inr (False, w)) of
                   Inl a \<Rightarrow> Inl a
                 | Inr (changed, w') \<Rightarrow>
                     Inr (\<lparr>dir = d, buildRes = fst r, didWork = changed, err = None\<rparr>, w')))
      in case buildCode r of
           BuildCodeSuccess \<Rightarrow> edit False
         | BuildCodeFailed \<Rightarrow> edit True
         | BuildCodeExclude \<Rightarrow> Inr (\<lparr>dir = d, buildRes = fst r, didWork = False, err = None\<rparr>, w)
         | BuildCodeFatal \<Rightarrow> Inr (\<lparr>dir = d, buildRes = fst r, didWork = False, err = snd r\<rparr>, w))
   \<and> buildCode (build E (tinygo conf) d) =
     (case snd (runCmd E (tinygo conf)
                  [''build'', ''-tags'',
                   Join ([''tinygo.enable''] @ (if buildTags d \<noteq> [] then [buildTags d] else [])) '','']
                  d) of
        None \<Rightarrow> BuildCodeSuccess
      | Some (OtherError e) \<Rightarrow> BuildCodeFatal
      | Some (ExitError x) \<Rightarrow> if isExcluded E d then BuildCodeExclude else BuildCodeFailed)"
proof
  let ?r = "build E (tinygo conf) d"
  have pkg: "fixupPkgConstraints E L d builds (checkOnly conf) w =
     (case Glob E d of
        None \<Rightarrow> Inl LogFatal
      | Some fs \<Rightarrow>
          (case fold (\<lambda>path acc.
                   case acc of
                     Inl a \<Rightarrow> Inl a
                   | Inr (changed, w1) \<Rightarrow>
                       (case fixupFileConstraints L path builds (checkOnly conf) w1 of
                          Inl a \<Rightarrow> Inl a
                        | Inr ((mdw, e), w2) \<Rightarrow> Inr (changed \<or> mdw, w2)))
                 (filter (\<lambda>f. HasSuffix f ''.go'') fs) (Inr (False, w)) of
             Inl a \<Rightarrow> Inl a
           | Inr (changed, w') \<Rightarrow> Inr ((changed, None), w')))" for builds
    by (simp add: fixupPkgConstraints_def pkgLoop_fold split: option.splits)
  consider (fatal) "snd ?r \<noteq> None"
    | (excl) "snd ?r = None" "BuildRes.excluded (fst ?r)"
    | (failed) "snd ?r = None" "\<not> BuildRes.excluded (fst ?r)" "BuildRes.err (fst ?r) \<noteq> None"
    | (success) "snd ?r = None" "\<not> BuildRes.excluded (fst ?r)" "BuildRes.err (fst ?r) = None"
    by blast
  then show "worker E L conf d w =
     (let r = build E (tinygo conf) d;
          rewrite = (\<lambda>desired path acc.
            case acc of
              Inl a \<Rightarrow> Inl a
            | Inr (changed, w1) \<Rightarrow>
                (case fixupFileConstraints L path (\<not> desired) (checkOnly conf) w1 of
                   Inl a \<Rightarrow> Inl a
                 | Inr ((mdw, e), w2) \<Rightarrow> Inr (changed \<or> mdw, w2)));
          edit = (\<lambda>desired.
            case Glob E d of
              None \<Rightarrow> Inl LogFatal
            | Some fs \<Rightarrow>
                (case fold (rewrite desired) (filter (\<lambda>f. HasSuffix f ''.go'') fs) (Inr (False, w)) of
                   Inl a \<Rightarrow> Inl a
                 | Inr (changed, w') \<Rightarrow>
                     Inr (\<lparr>dir = d, buildRes = fst r, didWork = changed, err = None\<rparr>, w')))
      in case buildCode r of
           BuildCodeSuccess \<Rightarrow> edit False
         | BuildCodeFailed \<Rightarrow> edit True
         | BuildCodeExclude \<Rightarrow> Inr (\<lparr>dir = d, buildRes = fst r, didWork = False, err = None\<rparr>, w)
         | BuildCodeFatal \<Rightarrow> Inr (\<lparr>dir = d, buildRes = fst r, didWork = False, err = snd r\<rparr>, w))"
  proof cases
    case fatal
    then show ?thesis by (simp add: worker_def buildCode_def Let_def del: not_None_eq)
  next
    case excl
    then show ?thesis by (simp add: worker_def buildCode_def Let_def del: not_None_eq)
  next
    case failed
    then show ?thesis
      by (simp add: worker_def buildCode_def Let_def pkg del: not_None_eq
          split: option.splits sum.splits prod.splits)
  next
    case success
    then show ?thesis
      by (simp add: worker_def buildCode_def Let_def pkg del: not_None_eq
          split: option.splits sum.splits prod.splits)
  qed
next
  show "buildCode (build E (tinygo conf) d) =
     (case snd (runCmd E (tinygo conf)
                  [''build'', ''-tags'',
                   Join ([''tinygo.enable''] @ (if buildTags d \<noteq> [] then [buildTags d] else [])) '','']
                  d) of
        None \<Rightarrow> BuildCodeSuccess
      | Some (OtherError e) \<Rightarrow> BuildCodeFatal
      | Some (ExitError x) \<Rightarrow> if isExcluded E d then BuildCodeExclude else BuildCodeFailed)"
    by (rule buildCode_build)
qed

theorem worker_edits_by_outcome_witness:
  "worker demoEnv demoLib demoConf ''cmds/core/ps'' demoWorld
     = Inr (\<lparr>dir = ''cmds/core/ps'',
              buildRes = \<lparr>BuildRes.err = Some ''exit status 1'', BuildRes.excluded = False,
                          output' = ''build failed''\<rparr>,
              didWork = True, err = None\<rparr>,
            demoWorld\<lparr>files := (files demoWorld)(''cmds/core/ps/ps.go'' \<mapsto> srcCopyrightTagged)\<rparr>)
   \<and> buildCode (build demoEnv (tinygo demoConf) ''cmds/core/ps'') = BuildCodeFailed"
proof -
  have c: "buildCode (build demoEnv (tinygo demoConf) ''cmds/core/ps'') = BuildCodeFailed"
    by (simp add: demo_conf demo_build buildCode_def)
  from worker_edits_by_outcome [of demoEnv demoLib demoConf "''cmds/core/ps''" demoWorld] c
  show ?thesis
    by (simp add: Let_def demo_conf demo_build demo_glob HasSuffix_def suffix_to_prefix
        demo_fixup_ps)
qed

section \<open>Properties of the rewriter's loops\<close>

lemma find_dropWhile:
  "find P xs = (case dropWhile (\<lambda>x. \<not> P x) xs of [] \<Rightarrow> None | x # _ \<Rightarrow> Some x)"
  by (induction xs) simp_all

lemma find_append':
  "find P (xs @ ys) = (case find P xs of None \<Rightarrow> find P ys | Some x \<Rightarrow> Some x)"
  by (induction xs) simp_all

lemma dropWhile_none: "find P xs = None \<Longrightarrow> dropWhile (\<lambda>x. \<not> P x) xs = []"
  by (induction xs) (simp_all split: if_splits)

lemma find_append_free: "find P xs = None \<Longrightarrow> find P (xs @ ys) = find P ys"
  by (induction xs) (simp_all split: if_splits)

lemma find_filter_free: "find P xs = None \<Longrightarrow> find P (filter Q xs) = None"
  by (induction xs) (simp_all split: if_splits)

lemma find_split:
  "find P xs = Some x \<Longrightarrow> \<exists>pre post. xs = pre @ x # post \<and> find P pre = None \<and> P x"
proof (induction xs)
  case Nil
  then show ?case by simp
next
  case (Cons a xs)
  show ?case
  proof (cases "P a")
    case True
    with Cons.prems have "a = x" by simp
    with True have "a # xs = [] @ x # xs \<and> find P [] = None \<and> P x" by simp
    then show ?thesis by blast
  next
    case False
    with Cons.prems have "find P xs = Some x" by simp
    from Cons.IH [OF this] obtain pre post where
      "xs = pre @ x # post" "find P pre = None" "P x" by blast
    with False have "a # xs = (a # pre) @ x # post \<and> find P (a # pre) = None \<and> P x" by simp
    then show ?thesis by blast
  qed
qed

lemma dropWhile_free: "find P pre = None \<Longrightarrow> P x \<Longrightarrow>
    dropWhile (\<lambda>x. \<not> P x) (pre @ x # post) = x # post"
  by (induction pre) (simp_all split: if_splits)

lemma takeWhile_free: "find P pre = None \<Longrightarrow> P x \<Longrightarrow>
    takeWhile (\<lambda>x. \<not> P x) (pre @ x # post) = pre"
  by (induction pre) (simp_all split: if_splits)

lemma firstGoBuild_Nil [simp]: "firstGoBuild [] = None"
  by (simp add: firstGoBuild_def)

lemma firstGoBuild_Cons:
  "firstGoBuild (cg # cgs) =
     (case find isGoBuild (List cg) of None \<Rightarrow> firstGoBuild cgs | Some c \<Rightarrow> Some c)"
  by (simp add: firstGoBuild_def find_append' split: option.splits)

lemma firstGoBuild_append_free:
  "firstGoBuild before = None \<Longrightarrow> firstGoBuild (before @ cgs) = firstGoBuild cgs"
  unfolding firstGoBuild_def by (simp add: find_append_free)

text \<open>A group without the prefix is left as it is.\<close>

lemma fixupGroup_free:
  "find isGoBuild (List cg) = None \<Longrightarrow> fixupGroup builds cg = Continue (cg, False)"
  by (simp add: fixupGroup_def dropWhile_none)

text \<open>At the first comment with the prefix the group is handled by \<open>fixupComment\<close>.\<close>

lemma fixupGroup_first:
  assumes "List cg = pre @ c # post" and "find isGoBuild pre = None" and "isGoBuild c"
  shows "fixupGroup builds cg =
           (case fixupComment builds pre c post of
              EarlyReturn \<Rightarrow> EarlyReturn
            | Continue l \<Rightarrow> Continue (cg\<lparr>List := l\<rparr>, True))"
  using assms by (simp add: fixupGroup_def dropWhile_free takeWhile_free)

lemma fixupGroups_free:
  "firstGoBuild cgs = None \<Longrightarrow> fixupGroups builds cgs = Continue (cgs, False)"
proof (induction cgs)
  case Nil
  then show ?case by simp
next
  case (Cons cg cgs)
  from Cons.prems have a: "find isGoBuild (List cg) = None" and b: "firstGoBuild cgs = None"
    by (simp_all add: firstGoBuild_Cons split: option.splits)
  from fixupGroup_free [OF a] Cons.IH [OF b] show ?case by simp
qed

lemma fixupGroups_split:
  assumes "firstGoBuild before = None"
  shows "fixupGroups builds (before @ cg # after) =
           (case fixupGroup builds cg of
              EarlyReturn \<Rightarrow> EarlyReturn
            | Continue (cg', p) \<Rightarrow>
                (case fixupGroups builds after of
                   EarlyReturn \<Rightarrow> EarlyReturn
                 | Continue (after', p') \<Rightarrow> Continue (before @ cg' # after', p \<or> p')))"
  using assms
proof (induction before)
  case Nil
  show ?case by (simp split: ctl.splits prod.splits)
next
  case (Cons b before)
  from Cons.prems have a: "find isGoBuild (List b) = None" and r: "firstGoBuild before = None"
    by (simp_all add: firstGoBuild_Cons split: option.splits)
  from Cons.IH [OF r] fixupGroup_free [OF a, of builds] show ?case
    by (simp split: ctl.splits prod.splits)
qed

text \<open>
  A first line that is in the state asked for ends the function at once: nothing before
  it has been changed, and nothing is printed or written.
\<close>

lemma fixupComment_uptodate:
  "Contains (Text c) constraint = (\<not> builds) \<Longrightarrow> fixupComment builds pre c post = EarlyReturn"
  by (auto simp: fixupComment_def Let_def)

lemma fixupGroups_uptodate:
  assumes "firstGoBuild cgs = Some c" and "Contains (Text c) constraint = (\<not> builds)"
  shows "fixupGroups builds cgs = EarlyReturn"
  using assms(1)
proof (induction cgs)
  case Nil
  then show ?case by simp
next
  case (Cons cg cgs)
  show ?case
  proof (cases "find isGoBuild (List cg)")
    case None
    with Cons.prems have "firstGoBuild cgs = Some c" by (simp add: firstGoBuild_Cons)
    from Cons.IH [OF this] fixupGroup_free [OF None, of builds] show ?thesis by simp
  next
    case (Some c')
    with Cons.prems have "c' = c" by (simp add: firstGoBuild_Cons)
    with Some find_split [of isGoBuild "List cg" c] obtain pre post where
      "List cg = pre @ c # post" "find isGoBuild pre = None" "isGoBuild c" by blast
    from fixupGroup_first [OF this, of builds] fixupComment_uptodate [OF assms(2)]
    show ?thesis by simp
  qed
qed

lemma editComments_free:
  "firstGoBuild cgs = None \<Longrightarrow>
     editComments builds cgs = Continue (if builds then Inr cgs else insertGoBuild cgs)"
  by (simp add: editComments_def fixupGroups_free)

lemma editComments_uptodate:
  "firstGoBuild cgs = Some c \<Longrightarrow> Contains (Text c) constraint = (\<not> builds) \<Longrightarrow>
     editComments builds cgs = EarlyReturn"
  by (simp add: editComments_def fixupGroups_uptodate)

subsection \<open>What the first regular expression deletes\<close>

lemma matchClause_head:
  "c \<noteq> CHR ''('' \<Longrightarrow> \<not> isSpace c \<Longrightarrow> c \<noteq> CHR ''!'' \<Longrightarrow> matchClause (c # cs) = None"
  by (simp add: matchClause_def optChar_def spaces_def)

text \<open>No match starts inside \<^verbatim>\<open>//go:build\<close>.\<close>

lemma stripClause_goBuild:
  "stripClause (''//go:build'' @ s) = ''//go:build'' @ stripClause s"
  by (simp add: matchClause_head isSpace_def)

lemma emptyGoBuild_goBuild:
  "emptyGoBuild (''//go:build'' @ r) = list_all isSpace r"
  by (simp add: emptyGoBuild_def spaces_def isSpace_def)

lemma isGoBuild_text: "isGoBuild c \<longleftrightarrow> (\<exists>t. Text c = ''//go:build'' @ CHR '' '' # t)"
  by (auto simp: isGoBuild_def HasPrefix_def goBuild_def prefix_def)

lemma isGoBuild_drop: "isGoBuild c \<Longrightarrow> Text c = ''//go:build'' @ drop 10 (Text c)"
  by (auto simp: isGoBuild_text)

text \<open>
  On a line as the rewriter writes it, the parenthesised constraint and the \<^verbatim>\<open>&&\<close>
  behind it are deleted, and the search goes on in what follows.
\<close>

lemma matchClause_written:
  "matchClause (''('' @ constraint @ '') &&'' @ rest) = Some rest"
  by (simp add: matchClause_def constraint_def optChar_def spaces_def spaces1_def isSpace_def
      anyChar_def optAnd_def)

lemma stripClause_written:
  "stripClause (goBuild @ ''('' @ constraint @ '') &&'' @ rest) = goBuild @ stripClause rest"
proof -
  have "matchClause ('' ('' @ constraint @ '') &&'' @ rest) = None"
    by (simp add: matchClause_def constraint_def optChar_def spaces_def isSpace_def)
  moreover have "matchClause (''('' @ constraint @ '') &&'' @ rest) = Some rest"
    by (rule matchClause_written)
  ultimately have "stripClause ('' ('' @ constraint @ '') &&'' @ rest) = '' '' @ stripClause rest"
    by (simp add: constraint_def)
  then show ?thesis
    using stripClause_goBuild [of "'' ('' @ constraint @ '') &&'' @ rest"]
    by (simp add: goBuild_def)
qed


subsection \<open>The edit of a file with one annotated group\<close>

text \<open>
  When only the group \<open>cg\<close> has a line with the prefix, the loops change that group and
  nothing else.
\<close>

lemma fixupGroups_one_group:
  assumes "firstGoBuild before = None" and "firstGoBuild after = None"
      and "List cg = pre @ c # post" and "find isGoBuild pre = None" and "isGoBuild c"
  shows "fixupGroups builds (before @ cg # after) =
           (case fixupComment builds pre c post of
              EarlyReturn \<Rightarrow> EarlyReturn
            | Continue l \<Rightarrow> Continue (before @ cg\<lparr>List := l\<rparr> # after, True))"
  by (simp add: fixupGroups_split [OF assms(1)] fixupGroup_first [OF assms(3-5)]
      fixupGroups_free [OF assms(2)] split: ctl.splits)

lemma fixupComment_conjoin:
  "\<not> Contains (Text c) constraint \<Longrightarrow>
     fixupComment False pre c post =
       Continue (pre @ c\<lparr>Text := goBuild @ ''('' @ constraint @ '') && (''
                                 @ drop (length goBuild) (Text c) @ '')''\<rparr> # post)"
  by (simp add: fixupComment_def)

lemma fixupComment_strip:
  assumes "isGoBuild c" and "Contains (Text c) constraint"
  shows "fixupComment True pre c post =
           Continue (if list_all isSpace (stripClause (drop 10 (Text c)))
                     then filter (\<lambda>x. \<not> emptyGoBuild (Text x)) (pre @ post)
                     else pre @ c\<lparr>Text := ''//go:build'' @ stripClause (drop 10 (Text c))\<rparr> # post)"
proof -
  have "stripClause (Text c) = ''//go:build'' @ stripClause (drop 10 (Text c))"
    using isGoBuild_drop [OF assms(1)] stripClause_goBuild [of "drop 10 (Text c)"] by simp
  moreover have "emptyGoBuild (''//go:build'' @ stripClause (drop 10 (Text c)))
                   = list_all isSpace (stripClause (drop 10 (Text c)))"
    by (rule emptyGoBuild_goBuild)
  ultimately show ?thesis using assms(2)
    by (simp add: fixupComment_def Let_def)
qed


subsection \<open>The state of the file the rewriter prints\<close>

lemma Contains_constraint_written:
  "Contains (goBuild @ ''('' @ constraint @ rest) constraint"
  using sublist_appendI [of constraint "goBuild @ ''(''" rest] by (simp add: Contains_def)

lemma Contains_constraint_written':
  "Contains (goBuild @ CHR ''('' # constraint @ rest) constraint"
  using Contains_constraint_written [of rest] by simp

lemma Contains_constraint_new: "Contains (goBuild @ constraint) constraint"
  by (simp add: Contains_def)

lemma isGoBuild_written: "isGoBuild (c\<lparr>Text := goBuild @ t\<rparr>)"
  by (simp add: isGoBuild_def HasPrefix_def)

lemma clauseState_Cons_free:
  "find isGoBuild (List cg) = None \<Longrightarrow> clauseState (cg # cgs) = clauseState cgs"
  by (simp add: clauseState_def firstGoBuild_Cons)

lemma clauseState_first:
  "find isGoBuild pre = None \<Longrightarrow> isGoBuild c \<Longrightarrow> List cg = pre @ c # post \<Longrightarrow>
     clauseState (cg # cgs) = Some (Contains (Text c) constraint)"
  by (simp add: clauseState_def firstGoBuild_Cons find_append_free)

lemma clauseState_goBuildGroup: "clauseState (goBuildGroup pos # cgs) = Some True"
  by (simp add: clauseState_def firstGoBuild_Cons goBuildGroup_def isGoBuild_def HasPrefix_def
      Contains_constraint_new)

text \<open>With \<open>desired\<close> true, what the loops and the insertion leave holds the constraint in its first line.\<close>

lemma fixupGroups_desired:
  "fixupGroups False cgs = Continue (cgs', p) \<Longrightarrow>
     (if p then clauseState cgs' = Some True else cgs' = cgs \<and> firstGoBuild cgs = None)"
proof (induction cgs arbitrary: cgs' p)
  case Nil
  then show ?case by auto
next
  case (Cons cg cgs)
  show ?case
  proof (cases "find isGoBuild (List cg)")
    case None
    from Cons.prems fixupGroup_free [OF None, of False] obtain rest' where
      r: "fixupGroups False cgs = Continue (rest', p)" and c: "cgs' = cg # rest'"
      by (auto split: ctl.splits)
    from Cons.IH [OF r] c None show ?thesis
      by (simp add: clauseState_Cons_free firstGoBuild_Cons split: if_splits)
  next
    case (Some c)
    from find_split [OF Some] obtain pre post where
      l: "List cg = pre @ c # post" and f: "find isGoBuild pre = None" and g: "isGoBuild c"
      by blast
    note first = fixupGroup_first [OF l f g, of False]
    show ?thesis
    proof (cases "Contains (Text c) constraint")
      case True
      then have "fixupComment False pre c post = EarlyReturn"
        by (simp add: fixupComment_uptodate)
      with first Cons.prems show ?thesis by simp
    next
      case False
      let ?c = "c\<lparr>Text := goBuild @ ''('' @ constraint @ '') && (''
                                @ drop (length goBuild) (Text c) @ '')''\<rparr>"
      from first fixupComment_conjoin [OF False, of pre post] Cons.prems obtain rest' where
        c: "cgs' = cg\<lparr>List := pre @ ?c # post\<rparr> # rest'" and p: "p"
        by (auto split: ctl.splits)
      have "clauseState (cg\<lparr>List := pre @ ?c # post\<rparr> # rest') = Some (Contains (Text ?c) constraint)"
        by (rule clauseState_first [OF f isGoBuild_written]) simp
      with c p show ?thesis by (simp add: Contains_constraint_written')
    qed
  qed
qed

lemma editComments_desired:
  assumes "editComments False cgs = Continue (Inr cgs')"
  shows "clauseState cgs' = Some True"
proof -
  from assms obtain cgs1 p where
    l: "fixupGroups False cgs = Continue (cgs1, p)" and
    i: "(if \<not> p then insertGoBuild cgs1 else Inr cgs1) = Inr cgs'"
    by (auto simp: editComments_def split: ctl.splits)
  note s = fixupGroups_desired [OF l]
  show ?thesis
  proof (cases p)
    case True
    with s i show ?thesis by simp
  next
    case False
    with s have free: "firstGoBuild cgs1 = None" by simp
    show ?thesis
    proof (cases cgs1)
      case Nil
      with i False show ?thesis by (auto simp: insertGoBuild_def clauseState_goBuildGroup)
    next
      case (Cons cg0 rest)
      with free have "find isGoBuild (List cg0) = None"
        by (simp add: firstGoBuild_Cons split: option.splits)
      with i False Cons show ?thesis
        by (auto simp: insertGoBuild_def clauseState_Cons_free clauseState_goBuildGroup
            split: list.splits)
    qed
  qed
qed

text \<open>
  With \<open>desired\<close> false, a file with at most one line with the prefix is left without
  such a line, or with one that no longer holds the constraint, provided the deletion
  does not join the constraint together again from what stood around it.
\<close>

lemma find_None_filter: "find P xs = None \<longleftrightarrow> filter P xs = []"
  by (induction xs) simp_all

lemma firstGoBuild_split:
  "firstGoBuild cgs = Some c \<Longrightarrow>
     \<exists>before cg after pre post.
       cgs = before @ cg # after \<and> firstGoBuild before = None
       \<and> List cg = pre @ c # post \<and> find isGoBuild pre = None \<and> isGoBuild c"
proof (induction cgs)
  case Nil
  then show ?case by simp
next
  case (Cons cg cgs)
  show ?case
  proof (cases "find isGoBuild (List cg)")
    case None
    with Cons.prems have "firstGoBuild cgs = Some c" by (simp add: firstGoBuild_Cons)
    from Cons.IH [OF this] obtain before cg1 after pre post where
      "cgs = before @ cg1 # after" "firstGoBuild before = None"
      "List cg1 = pre @ c # post" "find isGoBuild pre = None" "isGoBuild c" by blast
    with None have "cg # cgs = (cg # before) @ cg1 # after \<and> firstGoBuild (cg # before) = None
       \<and> List cg1 = pre @ c # post \<and> find isGoBuild pre = None \<and> isGoBuild c"
      by (simp add: firstGoBuild_Cons)
    then show ?thesis by blast
  next
    case (Some c')
    with Cons.prems have "c' = c" by (simp add: firstGoBuild_Cons)
    with Some find_split [of isGoBuild "List cg" c] obtain pre post where
      "List cg = pre @ c # post" "find isGoBuild pre = None" "isGoBuild c" by blast
    then have "cg # cgs = [] @ cg # cgs \<and> firstGoBuild [] = None
       \<and> List cg = pre @ c # post \<and> find isGoBuild pre = None \<and> isGoBuild c"
      by simp
    then show ?thesis by blast
  qed
qed

lemma editComments_strip_single:
  assumes e: "editComments True cgs = Continue (Inr cgs')"
      and one: "length (filter isGoBuild (concat (map List cgs))) \<le> 1"
      and apart: "\<forall>c\<in>set (concat (map List cgs)). \<not> Contains (stripClause (Text c)) constraint"
  shows "clauseState cgs' = Some False \<or> clauseState cgs' = None"
proof (cases "firstGoBuild cgs")
  case None
  with e have "cgs' = cgs" by (simp add: editComments_free)
  with None show ?thesis by (simp add: clauseState_def)
next
  case (Some c)
  from firstGoBuild_split [OF Some] obtain before cg after pre post where
    s: "cgs = before @ cg # after" and b: "firstGoBuild before = None" and
    l: "List cg = pre @ c # post" and p: "find isGoBuild pre = None" and g: "isGoBuild c"
    by blast
  from one s l g have "filter isGoBuild post = [] \<and> filter isGoBuild (concat (map List after)) = []"
    by simp
  then have po: "find isGoBuild post = None" and a: "firstGoBuild after = None"
    by (simp_all add: find_None_filter firstGoBuild_def)
  from s l have mem: "c \<in> set (concat (map List cgs))" by simp
  with apart have na: "\<not> Contains (stripClause (Text c)) constraint" by blast
  have st: "stripClause (Text c) = ''//go:build'' @ stripClause (drop 10 (Text c))"
    using isGoBuild_drop [OF g] stripClause_goBuild [of "drop 10 (Text c)"] by simp
  note loop = fixupGroups_one_group [OF b a l p g, of True]
  show ?thesis
  proof (cases "Contains (Text c) constraint")
    case False
    then have "fixupComment True pre c post = EarlyReturn"
      by (simp add: fixupComment_uptodate)
    with loop e s show ?thesis by (simp add: editComments_def)
  next
    case True
    let ?l = "if list_all isSpace (stripClause (drop 10 (Text c)))
              then filter (\<lambda>x. \<not> emptyGoBuild (Text x)) (pre @ post)
              else pre @ c\<lparr>Text := ''//go:build'' @ stripClause (drop 10 (Text c))\<rparr> # post"
    from loop fixupComment_strip [OF g True, of pre post] e s
    have c': "cgs' = before @ cg\<lparr>List := ?l\<rparr> # after"
      by (simp add: editComments_def)
    have "clauseState (cg\<lparr>List := ?l\<rparr> # after) = Some False
          \<or> clauseState (cg\<lparr>List := ?l\<rparr> # after) = None"
    proof (cases "list_all isSpace (stripClause (drop 10 (Text c)))")
      case True
      have "find isGoBuild (pre @ post) = None"
        using p po by (simp add: find_append_free)
      then have "find isGoBuild (filter (\<lambda>x. \<not> emptyGoBuild (Text x)) (pre @ post)) = None"
        by (rule find_filter_free)
      with True a show ?thesis
        by (simp add: clauseState_def firstGoBuild_Cons)
    next
      case False
      let ?c = "c\<lparr>Text := ''//go:build'' @ stripClause (drop 10 (Text c))\<rparr>"
      show ?thesis
      proof (cases "isGoBuild ?c")
        case True
        have "clauseState (cg\<lparr>List := pre @ ?c # post\<rparr> # after) = Some (Contains (Text ?c) constraint)"
          by (rule clauseState_first [OF p True]) simp
        with False na st show ?thesis by simp
      next
        case nt: False
        with p po have "find isGoBuild (pre @ ?c # post) = None"
          by (simp add: find_None_filter)
        with False a show ?thesis
          by (simp add: clauseState_def firstGoBuild_Cons)
      qed
    qed
    with c' b show ?thesis
      by (simp add: clauseState_def firstGoBuild_append_free)
  qed
qed

text \<open>A file in the state asked for, that prints as its own bytes, is left alone.\<close>

lemma fixupFile_settled:
  assumes "files w file = Some buf" and "ParseFile L file buf = Some g" and "Fprint L g = Some buf"
      and "clauseState (Comments g) = Some (\<not> builds) \<or> (clauseState (Comments g) = None \<and> builds)"
  shows "fixupFileConstraints L file builds checkonly w = Inr ((False, None), w)"
  using assms(4)
proof
  assume "clauseState (Comments g) = Some (\<not> builds)"
  then obtain c where "firstGoBuild (Comments g) = Some c" "Contains (Text c) constraint = (\<not> builds)"
    by (auto simp: clauseState_def)
  then have "editComments builds (Comments g) = EarlyReturn"
    by (rule editComments_uptodate)
  with assms(1,2) show ?thesis by (simp add: fixupFileConstraints_def)
next
  assume "clauseState (Comments g) = None \<and> builds"
  then have "firstGoBuild (Comments g) = None" and "builds"
    by (simp_all add: clauseState_def)
  then have "editComments builds (Comments g) = Continue (Inr (Comments g))"
    by (simp add: editComments_free)
  with assms(1-3) show ?thesis
    by (simp add: fixupFileConstraints_def writeBack_def)
qed


subsection \<open>What an edit keeps\<close>

lemma subseq_trans: "subseq xs ys \<Longrightarrow> subseq ys zs \<Longrightarrow> subseq xs zs"
  by (rule list_emb_trans) auto

lemma subseq_mid: "subseq (xs @ ys) (xs' @ ys') \<Longrightarrow> subseq (xs @ ys) (xs' @ c # ys')"
  by (metis subseq_order.order_refl list_emb_append_mono list_emb_Cons subseq_trans)

lemma fixupComment_keeps:
  assumes "isGoBuild c" and "fixupComment builds pre c post = Continue l"
  shows "subseq (filter (\<lambda>c. \<not> isGoBuild c \<and> \<not> emptyGoBuild (Text c)) (pre @ c # post)) l"
proof -
  let ?keep = "\<lambda>c. \<not> isGoBuild c \<and> \<not> emptyGoBuild (Text c)"
  have k: "filter ?keep (pre @ c # post) = filter ?keep pre @ filter ?keep post"
    using assms(1) by simp
  have base: "subseq (filter ?keep pre @ filter ?keep post) (pre @ post)"
    by (intro list_emb_append_mono) simp_all
  have mid: "subseq (filter ?keep pre @ filter ?keep post) (pre @ c' # post)" for c'
    by (intro list_emb_append_mono) (simp_all add: list_emb_Cons)
  show ?thesis
  proof (cases "builds \<and> emptyGoBuild (stripClause (Text c))")
    case True
    with assms(2) have l: "l = filter (\<lambda>x. \<not> emptyGoBuild (Text x)) (pre @ post)"
      by (simp add: fixupComment_def Let_def split: if_splits)
    have "filter ?keep (filter (\<lambda>x. \<not> emptyGoBuild (Text x)) xs) = filter ?keep xs" for xs
      by (induction xs) auto
    from this [of "pre @ post"]
    have "filter ?keep pre @ filter ?keep post
            = filter ?keep (filter (\<lambda>x. \<not> emptyGoBuild (Text x)) (pre @ post))"
      by simp
    then show ?thesis unfolding k l by (metis subseq_filter_left)
  next
    case False
    with assms(2) obtain c' where "l = pre @ c' # post"
      by (auto simp: fixupComment_def Let_def split: if_splits)
    with mid show ?thesis unfolding k by simp
  qed
qed

lemma fixupGroup_keeps:
  assumes "fixupGroup builds cg = Continue (cg', p)"
  shows "subseq (filter (\<lambda>c. \<not> isGoBuild c \<and> \<not> emptyGoBuild (Text c)) (List cg)) (List cg')"
proof (cases "find isGoBuild (List cg)")
  case None
  with assms fixupGroup_free [OF None, of builds] show ?thesis by simp
next
  case (Some c)
  from find_split [OF Some] obtain pre post where
    l: "List cg = pre @ c # post" and f: "find isGoBuild pre = None" and g: "isGoBuild c"
    by blast
  from assms fixupGroup_first [OF l f g, of builds] obtain l' where
    "fixupComment builds pre c post = Continue l'" and "cg' = cg\<lparr>List := l'\<rparr>"
    by (auto split: ctl.splits)
  with fixupComment_keeps [OF g, of builds pre post l'] l show ?thesis by simp
qed

lemma fixupGroups_keeps:
  "fixupGroups builds cgs = Continue (cgs', p) \<Longrightarrow>
     subseq (otherComments cgs) (concat (map List cgs'))"
proof (induction cgs arbitrary: cgs' p)
  case Nil
  then show ?case by (simp add: otherComments_def)
next
  case (Cons cg cgs)
  show ?case
  proof (cases "fixupGroup builds cg")
    case EarlyReturn
    with Cons.prems show ?thesis by simp
  next
    case (Continue x)
    obtain cg' p1 where x: "x = (cg', p1)" by (cases x)
    with Continue have g: "fixupGroup builds cg = Continue (cg', p1)" by simp
    show ?thesis
    proof (cases "fixupGroups builds cgs")
      case EarlyReturn
      with Cons.prems g show ?thesis by simp
    next
      case (Continue y)
      obtain rest' p2 where y: "y = (rest', p2)" by (cases y)
      with Continue have r: "fixupGroups builds cgs = Continue (rest', p2)" by simp
      with Cons.prems g have c: "cgs' = cg' # rest'" by simp
      from fixupGroup_keeps [OF g] Cons.IH [OF r] c show ?thesis
        by (simp add: otherComments_def list_emb_append_mono)
    qed
  qed
qed

lemma insertGoBuild_keeps:
  "insertGoBuild cgs = Inr cgs' \<Longrightarrow> subseq (concat (map List cgs)) (concat (map List cgs'))"
  by (auto simp: insertGoBuild_def goBuildGroup_def list_emb_Cons
      split: list.splits intro!: list_emb_append_mono)

text \<open>
  Whatever the loops and the insertion do, every other comment of the file is in the
  comments that are printed, with its text and position and in its place among them.
\<close>

lemma editComments_keeps:
  assumes "editComments builds cgs = Continue (Inr cgs')"
  shows "subseq (otherComments cgs) (concat (map List cgs'))"
proof -
  from assms obtain cgs1 p where
    l: "fixupGroups builds cgs = Continue (cgs1, p)" and
    i: "(if \<not> builds \<and> \<not> p then insertGoBuild cgs1 else Inr cgs1) = Inr cgs'"
    by (auto simp: editComments_def split: ctl.splits)
  from i have "subseq (concat (map List cgs1)) (concat (map List cgs'))"
    by (auto split: if_splits dest: insertGoBuild_keeps)
  with fixupGroups_keeps [OF l] show ?thesis by (rule subseq_trans)
qed

section \<open>The claims about the rewriter\<close>

text \<open>
  The rewriter of the specification is \<^verbatim>\<open>fixupFileConstraints\<close>, and its \<open>desired\<close> is
  the negation of the argument \<^verbatim>\<open>builds\<close>.
\<close>

text \<open>
  C8. A file without a line that has the prefix, with \<open>desired\<close> true: the file that is
  printed and compared is the parsed file with one new group, of the one comment
  \<^verbatim>\<open>//go:build !tinygo || tinygo.enable\<close>, put behind the first group, or put first when
  the file has no comment. (The parser gives no group without comments.)
\<close>

theorem insert_behind_first_group:
  assumes "files w file = Some b" and "ParseFile L file b = Some f"
      and "firstGoBuild (Comments f) = None"
      and "\<forall>cg\<in>set (Comments f). List cg \<noteq> []"
  shows "fixupFileConstraints L file False checkonly w =
           writeBack L file checkonly b
             (f\<lparr>Comments :=
                 (case Comments f of
                    [] \<Rightarrow> [\<lparr>List = [\<lparr>Slash = 0, Text = goBuild @ constraint\<rparr>]\<rparr>]
                  | cg0 # rest \<Rightarrow>
                      cg0 # \<lparr>List = [\<lparr>Slash = Slash (hd (List cg0)) + 1,
                                        Text = goBuild @ constraint\<rparr>]\<rparr> # rest)\<rparr>) w"
proof (cases "Comments f")
  case Nil
  with assms show ?thesis
    by (simp add: fixupFileConstraints_def editComments_free insertGoBuild_def goBuildGroup_def)
next
  case (Cons cg0 rest)
  with assms(4) obtain c0 cs where "List cg0 = c0 # cs" by (cases "List cg0") auto
  with Cons assms(1-3) show ?thesis
    by (simp add: fixupFileConstraints_def editComments_free insertGoBuild_def goBuildGroup_def)
qed

theorem insert_behind_first_group_witness:
  "fixupFileConstraints demoLib ''cmds/core/ps/ps.go'' False False demoWorld
   = Inr ((True, None),
          demoWorld\<lparr>files := (files demoWorld)(''cmds/core/ps/ps.go'' \<mapsto> srcCopyrightTagged)\<rparr>)"
proof -
  let ?f = "fileOf [[(1, ''// Copyright'')]]"
  have a: "files demoWorld ''cmds/core/ps/ps.go'' = Some srcCopyright" by (rule demo_files)
  have b: "ParseFile demoLib ''cmds/core/ps/ps.go'' srcCopyright = Some ?f" by code_simp
  have c: "firstGoBuild (Comments ?f) = None" by code_simp
  have d: "\<forall>cg\<in>set (Comments ?f). List cg \<noteq> []" by (simp add: fileOf_def)
  have e: "Fprint demoLib
             (?f\<lparr>Comments :=
                 (case Comments ?f of
                    [] \<Rightarrow> [\<lparr>List = [\<lparr>Slash = 0, Text = goBuild @ constraint\<rparr>]\<rparr>]
                  | cg0 # rest \<Rightarrow>
                      cg0 # \<lparr>List = [\<lparr>Slash = Slash (hd (List cg0)) + 1,
                                        Text = goBuild @ constraint\<rparr>]\<rparr> # rest)\<rparr>)
           = Some srcCopyrightTagged" by code_simp
  have g: "srcCopyright \<noteq> srcCopyrightTagged" by code_simp
  from insert_behind_first_group [OF a b c d, of False] e g show ?thesis
    by (simp add: writeBack_def demo_files)
qed

text \<open>
  C4. The rows of the table that end at once: when the first line with the prefix
  holds the constraint exactly if \<open>desired\<close> is true, the function returns with
  \<^verbatim>\<open>mustDoWork\<close> false, and nothing is printed or written. The row without such a line
  and with \<open>desired\<close> false is different: the parsed file is printed as it is and
  compared with the bytes read, so \<^verbatim>\<open>mustDoWork\<close> is false, and the file left alone,
  exactly if the file prints as its own bytes; otherwise \<^verbatim>\<open>mustDoWork\<close> is true, and the
  file is replaced by what was printed unless \<^verbatim>\<open>checkonly\<close> is set. When an edit is made,
  what is printed is the parsed file with its comment groups replaced and nothing else:
  the declarations are the parsed ones, and every comment that neither has the prefix
  nor is a bare \<^verbatim>\<open>//go:build\<close> line is among the comments printed, with its text and
  position and in its order.
\<close>

theorem noop_rows:
  assumes "files w file = Some b" and "ParseFile L file b = Some f"
  shows "(firstGoBuild (Comments f) = Some c \<and> Contains (Text c) constraint = desired
            \<longrightarrow> fixupFileConstraints L file (\<not> desired) checkonly w = Inr ((False, None), w))
       \<and> (firstGoBuild (Comments f) = None
            \<longrightarrow> fixupFileConstraints L file True checkonly w = writeBack L file checkonly b f w)
       \<and> (writeBack L file checkonly b g w = Inr ((False, None), w) \<longleftrightarrow> Fprint L g = Some b)
       \<and> (Fprint L g = Some buf \<and> b \<noteq> buf \<and> checkonly
            \<longrightarrow> writeBack L file checkonly b g w = Inr ((True, None), w))
       \<and> (Fprint L g = Some buf \<and> b \<noteq> buf \<and> \<not> checkonly \<and> file \<notin> unwritable w
            \<longrightarrow> writeBack L file checkonly b g w
                  = Inr ((True, None), w\<lparr>files := (files w)(file \<mapsto> buf)\<rparr>))
       \<and> (editComments (\<not> desired) (Comments f) = Continue (Inr cgs')
            \<longrightarrow> fixupFileConstraints L file (\<not> desired) checkonly w
                  = writeBack L file checkonly b (f\<lparr>Comments := cgs'\<rparr>) w
              \<and> Decls (f\<lparr>Comments := cgs'\<rparr>) = Decls f
              \<and> subseq (otherComments (Comments f)) (concat (map List cgs')))"
proof (intro conjI impI)
  assume "firstGoBuild (Comments f) = Some c \<and> Contains (Text c) constraint = desired"
  then have "editComments (\<not> desired) (Comments f) = EarlyReturn"
    by (simp add: editComments_uptodate)
  with assms show "fixupFileConstraints L file (\<not> desired) checkonly w = Inr ((False, None), w)"
    by (simp add: fixupFileConstraints_def)
next
  assume "firstGoBuild (Comments f) = None"
  with assms show "fixupFileConstraints L file True checkonly w = writeBack L file checkonly b f w"
    by (simp add: fixupFileConstraints_def editComments_free)
next
  show "writeBack L file checkonly b g w = Inr ((False, None), w) \<longleftrightarrow> Fprint L g = Some b"
    by (auto simp: writeBack_def split: option.splits)
next
  assume "Fprint L g = Some buf \<and> b \<noteq> buf \<and> checkonly"
  then show "writeBack L file checkonly b g w = Inr ((True, None), w)"
    by (simp add: writeBack_def)
next
  assume "Fprint L g = Some buf \<and> b \<noteq> buf \<and> \<not> checkonly \<and> file \<notin> unwritable w"
  then show "writeBack L file checkonly b g w
               = Inr ((True, None), w\<lparr>files := (files w)(file \<mapsto> buf)\<rparr>)"
    by (simp add: writeBack_def)
next
  assume "editComments (\<not> desired) (Comments f) = Continue (Inr cgs')"
  with assms show "fixupFileConstraints L file (\<not> desired) checkonly w
                     = writeBack L file checkonly b (f\<lparr>Comments := cgs'\<rparr>) w"
    by (simp add: fixupFileConstraints_def)
next
  show "Decls (f\<lparr>Comments := cgs'\<rparr>) = Decls f" by simp
next
  assume "editComments (\<not> desired) (Comments f) = Continue (Inr cgs')"
  then show "subseq (otherComments (Comments f)) (concat (map List cgs'))"
    by (rule editComments_keeps)
qed

theorem noop_rows_witness:
  "fixupFileConstraints demoLib ''cmds/core/ls/ls.go'' False False
     (demoWorld\<lparr>files := (files demoWorld)(''cmds/core/ls/ls.go'' \<mapsto> srcTagged)\<rparr>)
     = Inr ((False, None),
            demoWorld\<lparr>files := (files demoWorld)(''cmds/core/ls/ls.go'' \<mapsto> srcTagged)\<rparr>)
   \<and> fixupFileConstraints demoLib ''cmds/core/ls/ls.go'' True False demoWorld
     = Inr ((False, None), demoWorld)
   \<and> fixupFileConstraints demoLib ''cmds/core/ps/ps.go'' False True demoWorld
     = Inr ((True, None), demoWorld)
   \<and> fixupFileConstraints demoLib ''cmds/core/ps/ps.go'' False False demoWorld
     = Inr ((True, None),
            demoWorld\<lparr>files := (files demoWorld)(''cmds/core/ps/ps.go'' \<mapsto> srcCopyrightTagged)\<rparr>)
   \<and> subseq [\<lparr>Slash = 1, Text = ''// Copyright''\<rparr>]
        [\<lparr>Slash = 1, Text = ''// Copyright''\<rparr>,
         \<lparr>Slash = 2, Text = ''//go:build !tinygo || tinygo.enable''\<rparr>]"
proof -
  let ?ls = "''cmds/core/ls/ls.go''"
  let ?ps = "''cmds/core/ps/ps.go''"
  let ?w = "demoWorld\<lparr>files := (files demoWorld)(?ls \<mapsto> srcTagged)\<rparr>"
  let ?c = "\<lparr>Slash = 1, Text = ''//go:build !tinygo || tinygo.enable''\<rparr>"
  let ?f = "fileOf [[(1, ''// Copyright'')]]"
  let ?cgs = "[\<lparr>List = [\<lparr>Slash = 1, Text = ''// Copyright''\<rparr>]\<rparr>, goBuildGroup 2]"
  have a: "files ?w ?ls = Some srcTagged" by simp
  have b: "ParseFile demoLib ?ls srcTagged = Some (fileTagged 1)" by code_simp
  have c: "firstGoBuild (Comments (fileTagged 1)) = Some ?c \<and> Contains (Text ?c) constraint = True"
    by code_simp
  have a': "files demoWorld ?ls = Some srcPlain" by (rule demo_files)
  have b': "ParseFile demoLib ?ls srcPlain = Some filePlain" by code_simp
  have c': "firstGoBuild (Comments filePlain) = None" by code_simp
  have p: "Fprint demoLib filePlain = Some srcPlain" by code_simp
  have a2: "files demoWorld ?ps = Some srcCopyright" by (rule demo_files)
  have b2: "ParseFile demoLib ?ps srcCopyright = Some ?f" by code_simp
  have e2: "editComments (\<not> True) (Comments ?f) = Continue (Inr ?cgs)" by code_simp
  have p2: "Fprint demoLib (?f\<lparr>Comments := ?cgs\<rparr>) = Some srcCopyrightTagged" by code_simp
  have n2: "srcCopyright \<noteq> srcCopyrightTagged" by code_simp
  have o2: "otherComments (Comments ?f) = [\<lparr>Slash = 1, Text = ''// Copyright''\<rparr>]" by code_simp
  have l2: "concat (map List ?cgs)
              = [\<lparr>Slash = 1, Text = ''// Copyright''\<rparr>,
                 \<lparr>Slash = 2, Text = ''//go:build !tinygo || tinygo.enable''\<rparr>]" by code_simp
  from noop_rows [OF a b, of ?c True False]  c
  have 1: "fixupFileConstraints demoLib ?ls False False ?w = Inr ((False, None), ?w)"
    by simp
  from noop_rows [OF a' b', of ?c True False filePlain] c' p
  have 2: "fixupFileConstraints demoLib ?ls True False demoWorld = Inr ((False, None), demoWorld)"
    by simp
  from noop_rows [OF a2 b2, of ?c True True "?f\<lparr>Comments := ?cgs\<rparr>" srcCopyrightTagged ?cgs]
    e2 p2 n2
  have 3: "fixupFileConstraints demoLib ?ps False True demoWorld = Inr ((True, None), demoWorld)"
    by simp
  from noop_rows [OF a2 b2, of ?c True False "?f\<lparr>Comments := ?cgs\<rparr>" srcCopyrightTagged ?cgs]
    e2 p2 n2 o2 l2
  have 4: "fixupFileConstraints demoLib ?ps False False demoWorld
             = Inr ((True, None),
                    demoWorld\<lparr>files := (files demoWorld)(?ps \<mapsto> srcCopyrightTagged)\<rparr>)"
    and 5: "subseq [\<lparr>Slash = 1, Text = ''// Copyright''\<rparr>]
              [\<lparr>Slash = 1, Text = ''// Copyright''\<rparr>,
               \<lparr>Slash = 2, Text = ''//go:build !tinygo || tinygo.enable''\<rparr>]"
    by (simp_all add: demo_files)
  from 1 2 3 4 5 show ?thesis by simp
qed

text \<open>
  The claim as it was stated fails on a file that is not in the printer's format, in
  both of its halves. \<^verbatim>\<open>package  main\<close>, with two spaces, has no line with the prefix,
  and with \<open>desired\<close> false it is reported as changed and rewritten. And when the
  constraint line is taken out of such a file, the package clause, which the edit did not
  touch, is written with one space: its bytes are not in the file any more.
\<close>

theorem noop_rows_counterexample:
  "firstGoBuild (Comments filePlain) = None
   \<and> ParseFile demoLib ''cmds/core/ls/ls.go'' srcUnformatted = Some filePlain
   \<and> fixupFileConstraints demoLib ''cmds/core/ls/ls.go'' True False
        (demoWorld\<lparr>files := (files demoWorld)(''cmds/core/ls/ls.go'' \<mapsto> srcUnformatted)\<rparr>)
      = Inr ((True, None),
             demoWorld\<lparr>files := (files demoWorld)(''cmds/core/ls/ls.go'' \<mapsto> srcPlain)\<rparr>)
   \<and> srcUnformatted \<noteq> srcPlain
   \<and> ParseFile demoLib ''cmds/core/ls/ls.go'' srcTaggedUnformatted = Some (fileTagged 1)
   \<and> fixupFileConstraints demoLib ''cmds/core/ls/ls.go'' True False
        (demoWorld\<lparr>files := (files demoWorld)(''cmds/core/ls/ls.go'' \<mapsto> srcTaggedUnformatted)\<rparr>)
      = Inr ((True, None),
             demoWorld\<lparr>files := (files demoWorld)(''cmds/core/ls/ls.go'' \<mapsto> srcPlain)\<rparr>)
   \<and> Contains srcTaggedUnformatted ''package  main''
   \<and> Contains srcPlain ''package  main'' = False"
proof -
  let ?p = "''cmds/core/ls/ls.go''"
  let ?w = "demoWorld\<lparr>files := (files demoWorld)(?p \<mapsto> srcUnformatted)\<rparr>"
  let ?v = "demoWorld\<lparr>files := (files demoWorld)(?p \<mapsto> srcTaggedUnformatted)\<rparr>"
  have a: "files ?w ?p = Some srcUnformatted" by simp
  have b: "ParseFile demoLib ?p srcUnformatted = Some filePlain" by code_simp
  have c: "editComments True (Comments filePlain) = Continue (Inr [])" by code_simp
  have d: "Fprint demoLib (filePlain\<lparr>Comments := []\<rparr>) = Some srcPlain" by code_simp
  have e: "srcUnformatted \<noteq> srcPlain" by code_simp
  have g: "?p \<notin> unwritable ?w" by (simp add: demo_files)
  have h: "firstGoBuild (Comments filePlain) = None" by code_simp
  have a1: "files ?v ?p = Some srcTaggedUnformatted" by simp
  have b1: "ParseFile demoLib ?p srcTaggedUnformatted = Some (fileTagged 1)" by code_simp
  have c1: "editComments True (Comments (fileTagged 1)) = Continue (Inr [\<lparr>List = []\<rparr>])"
    by code_simp
  have d1: "Fprint demoLib (fileTagged 1\<lparr>Comments := [\<lparr>List = []\<rparr>]\<rparr>) = Some srcPlain"
    by code_simp
  have e1: "srcTaggedUnformatted \<noteq> srcPlain" by code_simp
  have g1: "?p \<notin> unwritable ?v" by (simp add: demo_files)
  have k: "Contains srcTaggedUnformatted ''package  main''
           \<and> Contains srcPlain ''package  main'' = False" by code_simp
  from fixupFile_writes [OF a b c d e g] fixupFile_writes [OF a1 b1 c1 d1 e1 g1] b e h b1 k
  show ?thesis by simp
qed


text \<open>
  C5. The expression that deletes the constraint takes a \<^verbatim>\<open>&&\<close> along only when it
  stands behind the constraint. In \<^verbatim>\<open>//go:build linux && (!tinygo || tinygo.enable)\<close>
  the operator stands before it: with \<open>desired\<close> false the line is left as
  \<^verbatim>\<open>//go:build linux && \<close>, an expression that ends in an operator.
\<close>

theorem strip_leaves_conjunction:
  "ParseFile demoLib ''cmds/core/ls/ls.go'' srcLinuxAndTagged
     = Some (fileOf [[(1, ''//go:build linux && (!tinygo || tinygo.enable)'')]])
   \<and> firstGoBuild (Comments (fileOf [[(1, ''//go:build linux && (!tinygo || tinygo.enable)'')]]))
     = Some \<lparr>Slash = 1, Text = ''//go:build linux && (!tinygo || tinygo.enable)''\<rparr>
   \<and> Contains ''//go:build linux && (!tinygo || tinygo.enable)'' constraint
   \<and> stripClause ''//go:build linux && (!tinygo || tinygo.enable)'' = ''//go:build linux && ''
   \<and> editComments True (Comments (fileOf [[(1, ''//go:build linux && (!tinygo || tinygo.enable)'')]]))
     = Continue (Inr [\<lparr>List = [\<lparr>Slash = 1, Text = ''//go:build linux && ''\<rparr>]\<rparr>])"
  by code_simp

text \<open>
  C6. The \<^verbatim>\<open>break\<close> behind the edit leaves the inner loop only, and the outer loop goes
  on to the next group: in a file with a line \<^verbatim>\<open>//go:build linux\<close> in each of two
  groups and \<open>desired\<close> true, the second line is rewritten as the first is.
\<close>

theorem later_line_rewritten:
  "ParseFile demoLib ''cmds/core/ps/ps.go'' srcLinuxTwice
     = Some (fileOf [[(1, ''//go:build linux'')], [(19, ''//go:build linux'')]])
   \<and> firstGoBuild (Comments (fileOf [[(1, ''//go:build linux'')], [(19, ''//go:build linux'')]]))
     = Some \<lparr>Slash = 1, Text = ''//go:build linux''\<rparr>
   \<and> editComments False (Comments (fileOf [[(1, ''//go:build linux'')], [(19, ''//go:build linux'')]]))
     = Continue (Inr
         [\<lparr>List = [\<lparr>Slash = 1, Text = ''//go:build (!tinygo || tinygo.enable) && (linux)''\<rparr>]\<rparr>,
          \<lparr>List = [\<lparr>Slash = 19, Text = ''//go:build (!tinygo || tinygo.enable) && (linux)''\<rparr>]\<rparr>])"
  by code_simp

text \<open>
  C7. For the same reason a later group can undo the edit of the first line: with
  \<^verbatim>\<open>//go:build linux\<close> in the first group and the constraint line in the second, the
  first line is given the conjunction, the second line is found up to date, and the
  function returns there. Nothing is printed, and the file keeps its first line.
\<close>

theorem conjunction_dropped:
  "ParseFile demoLib ''cmds/core/ps/ps.go'' srcLinuxThenTagged
     = Some (fileOf [[(1, ''//go:build linux'')], [(19, ''//go:build !tinygo || tinygo.enable'')]])
   \<and> firstGoBuild (Comments (fileOf [[(1, ''//go:build linux'')],
                                     [(19, ''//go:build !tinygo || tinygo.enable'')]]))
     = Some \<lparr>Slash = 1, Text = ''//go:build linux''\<rparr>
   \<and> Contains ''//go:build linux'' constraint = False
   \<and> fixupFileConstraints demoLib ''cmds/core/ps/ps.go'' False False
        (demoWorld\<lparr>files := (files demoWorld)(''cmds/core/ps/ps.go'' \<mapsto> srcLinuxThenTagged)\<rparr>)
     = Inr ((False, None),
            demoWorld\<lparr>files := (files demoWorld)(''cmds/core/ps/ps.go'' \<mapsto> srcLinuxThenTagged)\<rparr>)"
proof -
  let ?w = "demoWorld\<lparr>files := (files demoWorld)(''cmds/core/ps/ps.go'' \<mapsto> srcLinuxThenTagged)\<rparr>"
  let ?f = "fileOf [[(1, ''//go:build linux'')], [(19, ''//go:build !tinygo || tinygo.enable'')]]"
  have a: "files ?w ''cmds/core/ps/ps.go'' = Some srcLinuxThenTagged" by simp
  have b: "ParseFile demoLib ''cmds/core/ps/ps.go'' srcLinuxThenTagged = Some ?f" by code_simp
  have c: "editComments False (Comments ?f) = EarlyReturn" by code_simp
  have d: "firstGoBuild (Comments ?f) = Some \<lparr>Slash = 1, Text = ''//go:build linux''\<rparr>"
    by code_simp
  have e: "Contains ''//go:build linux'' constraint = False" by code_simp
  from fixupFile_skips [OF a b c, of False] b d e show ?thesis by simp
qed


text \<open>
  C3. Two applications with the same \<open>desired\<close> and with \<^verbatim>\<open>checkonly\<close> off. The second
  one reports no change and leaves the files as the first left them, under these
  conditions. With \<open>desired\<close> false the file has at most one line with the prefix, and
  deleting the matches from a line does not make the constraint appear in it again.
  And when the first application wrote the file, what it wrote can be read back, in
  the state in which it was printed: it parses, its first line with the prefix holds
  the constraint or not as in the comments that were printed, and it prints as the
  same bytes.
\<close>

theorem second_application_unchanged:
  assumes read: "files w file = Some b" and parse: "ParseFile L file b = Some f"
      and first: "fixupFileConstraints L file (\<not> desired) False w = Inr ((changed, e), w1)"
      and single: "desired \<or>
            (length (filter isGoBuild (concat (map List (Comments f)))) \<le> 1
             \<and> (\<forall>c\<in>set (concat (map List (Comments f))).
                   \<not> Contains (stripClause (Text c)) constraint))"
      and readback: "\<And>cgs' buf.
            editComments (\<not> desired) (Comments f) = Continue (Inr cgs') \<Longrightarrow>
            Fprint L (f\<lparr>Comments := cgs'\<rparr>) = Some buf \<Longrightarrow> b \<noteq> buf \<Longrightarrow>
            \<exists>g. ParseFile L file buf = Some g
                \<and> clauseState (Comments g) = clauseState cgs'
                \<and> Fprint L g = Some buf"
  shows "fixupFileConstraints L file (\<not> desired) False w1 = Inr ((False, None), w1)"
proof (cases "editComments (\<not> desired) (Comments f)")
  case EarlyReturn
  with read parse first have "w1 = w"
    by (simp add: fixupFileConstraints_def)
  moreover from EarlyReturn read parse
  have "fixupFileConstraints L file (\<not> desired) False w = Inr ((False, None), w)"
    by (simp add: fixupFileConstraints_def)
  ultimately show ?thesis by simp
next
  case (Continue r)
  with read parse first obtain cgs' where r: "r = Inr cgs'"
    by (cases r) (simp_all add: fixupFileConstraints_def)
  with Continue have edit: "editComments (\<not> desired) (Comments f) = Continue (Inr cgs')"
    by simp
  with read parse first
  have wb: "writeBack L file False b (f\<lparr>Comments := cgs'\<rparr>) w = Inr ((changed, e), w1)"
    by (simp add: fixupFileConstraints_def)
  then obtain buf where pr: "Fprint L (f\<lparr>Comments := cgs'\<rparr>) = Some buf"
    by (auto simp: writeBack_def split: option.splits)
  show ?thesis
  proof (cases "b = buf")
    case True
    with wb pr have "w1 = w" by (simp add: writeBack_def)
    moreover from True pr edit read parse
    have "fixupFileConstraints L file (\<not> desired) False w = Inr ((False, None), w)"
      by (simp add: fixupFileConstraints_def writeBack_def)
    ultimately show ?thesis by simp
  next
    case False
    with wb pr have w1: "w1 = w\<lparr>files := (files w)(file \<mapsto> buf)\<rparr>"
      by (simp add: writeBack_def split: if_splits)
    then have read1: "files w1 file = Some buf" by simp
    from readback [OF edit pr False] obtain g where
      g: "ParseFile L file buf = Some g" "clauseState (Comments g) = clauseState cgs'"
         "Fprint L g = Some buf" by blast
    have "clauseState cgs' = Some (\<not> \<not> desired) \<or> (clauseState cgs' = None \<and> \<not> desired)"
    proof (cases desired)
      case True
      with edit have "clauseState cgs' = Some True"
        by (simp add: editComments_desired)
      with True show ?thesis by simp
    next
      case False
      with single edit have "clauseState cgs' = Some False \<or> clauseState cgs' = None"
        by (simp add: editComments_strip_single)
      with False show ?thesis by auto
    qed
    with g(2) have "clauseState (Comments g) = Some (\<not> \<not> desired)
                    \<or> (clauseState (Comments g) = None \<and> \<not> desired)"
      by simp
    from fixupFile_settled [OF read1 g(1) g(3) this] show ?thesis .
  qed
qed

theorem second_application_unchanged_witness:
  "fixupFileConstraints demoLib ''cmds/core/ls/ls.go'' True False
     (demoWorld\<lparr>files := (files demoWorld)(''cmds/core/ls/ls.go'' \<mapsto> srcTagged)\<rparr>)
     = Inr ((True, None), demoWorld\<lparr>files := (files demoWorld)(''cmds/core/ls/ls.go'' \<mapsto> srcPlain)\<rparr>)
   \<and> fixupFileConstraints demoLib ''cmds/core/ls/ls.go'' True False
       (demoWorld\<lparr>files := (files demoWorld)(''cmds/core/ls/ls.go'' \<mapsto> srcPlain)\<rparr>)
     = Inr ((False, None), demoWorld\<lparr>files := (files demoWorld)(''cmds/core/ls/ls.go'' \<mapsto> srcPlain)\<rparr>)"
proof -
  let ?p = "''cmds/core/ls/ls.go''"
  let ?w0 = "demoWorld\<lparr>files := (files demoWorld)(?p \<mapsto> srcTagged)\<rparr>"
  let ?w1 = "demoWorld\<lparr>files := (files demoWorld)(?p \<mapsto> srcPlain)\<rparr>"
  have rd: "files ?w0 ?p = Some srcTagged" by simp
  have ps: "ParseFile demoLib ?p srcTagged = Some (fileTagged 1)" by code_simp
  have ed: "editComments True (Comments (fileTagged 1)) = Continue (Inr [\<lparr>List = []\<rparr>])"
    by code_simp
  have prt: "Fprint demoLib (fileTagged 1\<lparr>Comments := [\<lparr>List = []\<rparr>]\<rparr>) = Some srcPlain"
    by code_simp
  have ne: "srcTagged \<noteq> srcPlain" by code_simp
  have wr: "?p \<notin> unwritable ?w0" by (simp add: demo_files)
  have rb: "ParseFile demoLib ?p srcPlain = Some filePlain
            \<and> clauseState (Comments filePlain) = clauseState [\<lparr>List = []\<rparr>]
            \<and> Fprint demoLib filePlain = Some srcPlain"
    by code_simp
  have one: "length (filter isGoBuild (concat (map List (Comments (fileTagged 1))))) \<le> 1
             \<and> (\<forall>c\<in>set (concat (map List (Comments (fileTagged 1)))).
                   \<not> Contains (stripClause (Text c)) constraint)"
    by code_simp
  have app1: "fixupFileConstraints demoLib ?p (\<not> False) False ?w0 = Inr ((True, None), ?w1)"
    using fixupFile_writes [OF rd ps ed prt ne wr] by simp
  have app2: "fixupFileConstraints demoLib ?p (\<not> False) False ?w1 = Inr ((False, None), ?w1)"
  proof (rule second_application_unchanged [OF rd ps app1])
    show "False \<or>
            (length (filter isGoBuild (concat (map List (Comments (fileTagged 1))))) \<le> 1
             \<and> (\<forall>c\<in>set (concat (map List (Comments (fileTagged 1)))).
                   \<not> Contains (stripClause (Text c)) constraint))"
      using one by simp
  next
    fix cgs' buf
    assume "editComments (\<not> False) (Comments (fileTagged 1)) = Continue (Inr cgs')"
    with ed have c: "cgs' = [\<lparr>List = []\<rparr>]" by simp
    assume "Fprint demoLib (fileTagged 1\<lparr>Comments := cgs'\<rparr>) = Some buf"
    with c prt have "buf = srcPlain" by simp
    with c rb show "\<exists>g. ParseFile demoLib ?p buf = Some g
                      \<and> clauseState (Comments g) = clauseState cgs'
                      \<and> Fprint demoLib g = Some buf"
      by blast
  qed
  from app1 app2 show ?thesis by simp
qed

text \<open>
  The claim as it was stated fails in two ways. On a file that has the constraint line
  twice, with \<open>desired\<close> false, the first application deletes the first of the two lines
  and writes the file; the second application finds the other line, deletes it and
  reports a change again. On a file without comments, with \<open>desired\<close> true, the first
  application puts the new group at \<^verbatim>\<open>NoPos\<close> and writes what the printer makes of it,
  \<^verbatim>\<open>packagemain\<close> behind the new line; the second application cannot parse that and
  ends in \<^verbatim>\<open>log.Fatalf\<close>.
\<close>

theorem second_application_counterexample:
  "fixupFileConstraints demoLib ''cmds/core/ls/ls.go'' True False
     (demoWorld\<lparr>files := (files demoWorld)(''cmds/core/ls/ls.go'' \<mapsto> srcTwice)\<rparr>)
   = Inr ((True, None),
          demoWorld\<lparr>files := (files demoWorld)(''cmds/core/ls/ls.go'' \<mapsto> srcTagged)\<rparr>)
   \<and> fixupFileConstraints demoLib ''cmds/core/ls/ls.go'' True False
       (demoWorld\<lparr>files := (files demoWorld)(''cmds/core/ls/ls.go'' \<mapsto> srcTagged)\<rparr>)
   = Inr ((True, None),
          demoWorld\<lparr>files := (files demoWorld)(''cmds/core/ls/ls.go'' \<mapsto> srcPlain)\<rparr>)
   \<and> fixupFileConstraints demoLib ''cmds/core/ls/ls.go'' False False demoWorld
   = Inr ((True, None),
          demoWorld\<lparr>files := (files demoWorld)(''cmds/core/ls/ls.go'' \<mapsto> srcBroken)\<rparr>)
   \<and> fixupFileConstraints demoLib ''cmds/core/ls/ls.go'' False False
       (demoWorld\<lparr>files := (files demoWorld)(''cmds/core/ls/ls.go'' \<mapsto> srcBroken)\<rparr>)
   = Inl LogFatal"
proof -
  let ?p = "''cmds/core/ls/ls.go''"
  let ?w0 = "demoWorld\<lparr>files := (files demoWorld)(?p \<mapsto> srcTwice)\<rparr>"
  let ?w1 = "demoWorld\<lparr>files := (files demoWorld)(?p \<mapsto> srcTagged)\<rparr>"
  let ?w2 = "demoWorld\<lparr>files := (files demoWorld)(?p \<mapsto> srcBroken)\<rparr>"
  let ?f0 = "fileOf [[(1, ''//go:build !tinygo || tinygo.enable''),
                      (37, ''//go:build !tinygo || tinygo.enable'')]]"
  let ?l1 = "[\<lparr>List = [\<lparr>Slash = 37, Text = ''//go:build !tinygo || tinygo.enable''\<rparr>]\<rparr>]"
  have a0: "files ?w0 ?p = Some srcTwice" by simp
  have b0: "ParseFile demoLib ?p srcTwice = Some ?f0" by code_simp
  have c0: "editComments True (Comments ?f0) = Continue (Inr ?l1)" by code_simp
  have d0: "Fprint demoLib (?f0\<lparr>Comments := ?l1\<rparr>) = Some srcTagged" by code_simp
  have e0: "srcTwice \<noteq> srcTagged" by code_simp
  have g0: "?p \<notin> unwritable ?w0" by (simp add: demo_files)
  have a1: "files ?w1 ?p = Some srcTagged" by simp
  have b1: "ParseFile demoLib ?p srcTagged = Some (fileTagged 1)" by code_simp
  have c1: "editComments True (Comments (fileTagged 1)) = Continue (Inr [\<lparr>List = []\<rparr>])" by code_simp
  have d1: "Fprint demoLib (fileTagged 1\<lparr>Comments := [\<lparr>List = []\<rparr>]\<rparr>) = Some srcPlain" by code_simp
  have e1: "srcTagged \<noteq> srcPlain" by code_simp
  have g1: "?p \<notin> unwritable ?w1" by (simp add: demo_files)
  have a2: "files demoWorld ?p = Some srcPlain" by (rule demo_files)
  have b2: "ParseFile demoLib ?p srcPlain = Some filePlain" by code_simp
  have c2: "editComments False (Comments filePlain) = Continue (Inr [goBuildGroup 0])" by code_simp
  have d2: "Fprint demoLib (filePlain\<lparr>Comments := [goBuildGroup 0]\<rparr>) = Some srcBroken" by code_simp
  have e2: "srcPlain \<noteq> srcBroken" by code_simp
  have g2: "?p \<notin> unwritable demoWorld" by (simp add: demo_files)
  have a3: "files ?w2 ?p = Some srcBroken" by simp
  have b3: "ParseFile demoLib ?p srcBroken = None" by code_simp
  have 3: "fixupFileConstraints demoLib ?p False False ?w2 = Inl LogFatal"
    using a3 b3 by (simp add: fixupFileConstraints_def)
  from fixupFile_writes [OF a0 b0 c0 d0 e0 g0] fixupFile_writes [OF a1 b1 c1 d1 e1 g1]
       fixupFile_writes [OF a2 b2 c2 d2 e2 g2] 3
  show ?thesis by simp
qed


section \<open>Further properties of the rewriter\<close>

text \<open>
  X1. The first line with the prefix lacks the constraint, \<open>desired\<close> is true, and no
  later group has a line with the prefix: the line is replaced by the prefix followed by
  \<^verbatim>\<open>(!tinygo || tinygo.enable) && (E)\<close>, where \<^verbatim>\<open>E\<close> is all that stood behind the prefix,
  and the file is printed from that.
\<close>

theorem conjoin_first_line:
  assumes "files w file = Some b" and "ParseFile L file b = Some f"
      and "Comments f = before @ cg # after"
      and "firstGoBuild before = None" and "firstGoBuild after = None"
      and "List cg = pre @ c # post" and "find isGoBuild pre = None" and "isGoBuild c"
      and "\<not> Contains (Text c) constraint"
  shows "fixupFileConstraints L file False checkonly w =
           writeBack L file checkonly b
             (f\<lparr>Comments := before @
                 cg\<lparr>List := pre @ c\<lparr>Text := goBuild @ ''('' @ constraint @ '') && (''
                                                  @ drop (length goBuild) (Text c) @ '')''\<rparr>
                               # post\<rparr>
                 # after\<rparr>) w"
proof -
  have "editComments False (Comments f) =
          Continue (Inr (before @
            cg\<lparr>List := pre @ c\<lparr>Text := goBuild @ ''('' @ constraint @ '') && (''
                                             @ drop (length goBuild) (Text c) @ '')''\<rparr>
                          # post\<rparr>
            # after))"
    unfolding editComments_def assms(3)
    by (simp add: fixupGroups_one_group [OF assms(4-8)] fixupComment_conjoin [OF assms(9)])
  with assms(1,2) show ?thesis
    by (simp add: fixupFileConstraints_def)
qed

theorem conjoin_first_line_witness:
  "fixupFileConstraints demoLib ''cmds/core/ps/ps.go'' False False
     (demoWorld\<lparr>files := (files demoWorld)(''cmds/core/ps/ps.go'' \<mapsto> srcLinux)\<rparr>)
   = Inr ((True, None),
          demoWorld\<lparr>files := (files demoWorld)(''cmds/core/ps/ps.go'' \<mapsto> srcLinuxTagged)\<rparr>)"
proof -
  let ?w = "demoWorld\<lparr>files := (files demoWorld)(''cmds/core/ps/ps.go'' \<mapsto> srcLinux)\<rparr>"
  let ?c = "\<lparr>Slash = 1, Text = ''//go:build linux''\<rparr>"
  let ?cg = "\<lparr>List = [?c]\<rparr>"
  let ?f = "fileOf [[(1, ''//go:build linux'')]]"
  have a: "files ?w ''cmds/core/ps/ps.go'' = Some srcLinux" by simp
  have b: "ParseFile demoLib ''cmds/core/ps/ps.go'' srcLinux = Some ?f" by code_simp
  have c: "Comments ?f = [] @ ?cg # []" by code_simp
  have d: "firstGoBuild [] = None" by simp
  have e: "List ?cg = [] @ ?c # []" by simp
  have g: "find isGoBuild [] = None" by simp
  have h: "isGoBuild ?c" by code_simp
  have i: "\<not> Contains (Text ?c) constraint" by code_simp
  have k: "Fprint demoLib
             (?f\<lparr>Comments := [] @
                 ?cg\<lparr>List := [] @ ?c\<lparr>Text := goBuild @ ''('' @ constraint @ '') && (''
                                                   @ drop (length goBuild) (Text ?c) @ '')''\<rparr>
                                # []\<rparr>
                 # []\<rparr>) = Some srcLinuxTagged"
    by code_simp
  have l: "srcLinux \<noteq> srcLinuxTagged" by code_simp
  have m: "''cmds/core/ps/ps.go'' \<notin> unwritable ?w" by (simp add: demo_files)
  from conjoin_first_line [OF a b c d d e g h i, of False] k l m
  show ?thesis by (simp add: writeBack_def)
qed

lemma pkgLoop_checkonly:
  "pkgLoop L builds True fs m w = Inr (r, w') \<Longrightarrow> w' = w"
proof (induction fs arbitrary: m w)
  case Nil
  then show ?case by simp
next
  case (Cons path rest)
  show ?case
  proof (cases "HasSuffix path ''.go''")
    case False
    with Cons show ?thesis by simp
  next
    case True
    with Cons.prems obtain mdw e2 w1 where
      f: "fixupFileConstraints L path builds True w = Inr ((mdw, e2), w1)"
      by (auto split: sum.splits)
    then have w1: "w1 = w"
      by (auto simp: fixupFileConstraints_def writeBack_def
          split: option.splits ctl.splits sum.splits if_splits)
    from fixupFileConstraints_err [OF f] have "e2 = None" .
    with Cons.prems True f w1 have "pkgLoop L builds True rest (m \<or> mdw) w = Inr (r, w')"
      by simp
    then show ?thesis by (rule Cons.IH)
  qed
qed

text \<open>
  X2. With \<^verbatim>\<open>checkonly\<close> set no file is written, whatever is reported: neither by the
  function on one file nor by the loop over a directory's files.
\<close>

theorem checkonly_writes_nothing:
  "(fixupFileConstraints L file builds True w = Inr (r, w') \<longrightarrow> w' = w)
   \<and> (fixupPkgConstraints E L d builds True w = Inr (r, w') \<longrightarrow> w' = w)"
proof (intro conjI impI)
  assume "fixupFileConstraints L file builds True w = Inr (r, w')"
  then show "w' = w"
    by (auto simp: fixupFileConstraints_def writeBack_def
        split: option.splits ctl.splits sum.splits if_splits)
next
  assume "fixupPkgConstraints E L d builds True w = Inr (r, w')"
  then show "w' = w"
    by (auto simp: fixupPkgConstraints_def split: option.splits dest: pkgLoop_checkonly)
qed

theorem checkonly_writes_nothing_witness:
  "fixupFileConstraints demoLib ''cmds/core/ps/ps.go'' False True demoWorld
     = Inr ((True, None), demoWorld)"
proof -
  let ?f = "fileOf [[(1, ''// Copyright'')]]"
  let ?cgs = "[\<lparr>List = [\<lparr>Slash = 1, Text = ''// Copyright''\<rparr>]\<rparr>, goBuildGroup 2]"
  have a: "files demoWorld ''cmds/core/ps/ps.go'' = Some srcCopyright" by (rule demo_files)
  have b: "ParseFile demoLib ''cmds/core/ps/ps.go'' srcCopyright = Some ?f" by code_simp
  have c: "editComments False (Comments ?f) = Continue (Inr ?cgs)" by code_simp
  have d: "Fprint demoLib (?f\<lparr>Comments := ?cgs\<rparr>) = Some srcCopyrightTagged" by code_simp
  have e: "srcCopyright \<noteq> srcCopyrightTagged" by code_simp
  from fixupFile_checks [OF a b c d e]
  obtain w' where r: "fixupFileConstraints demoLib ''cmds/core/ps/ps.go'' False True demoWorld
                        = Inr ((True, None), w')" by blast
  with checkonly_writes_nothing [of demoLib "''cmds/core/ps/ps.go''" False demoWorld "(True, None)" w']
  have "w' = demoWorld" by simp
  with r show ?thesis by simp
qed

text \<open>
  X3. The first line with the prefix holds the constraint, \<open>desired\<close> is false, and no
  later group has a line with the prefix. Every match of the expression is deleted from
  the line; on a line as the rewriter writes it that is the parenthesised constraint
  with the \<^verbatim>\<open>&&\<close> behind it. When only white space is left behind \<^verbatim>\<open>//go:build\<close>, the
  line, and every other bare \<^verbatim>\<open>//go:build\<close> line of the group, is taken out of the
  group's list, and the file is printed from that.
\<close>

theorem strip_first_line:
  assumes "files w file = Some b" and "ParseFile L file b = Some f"
      and "Comments f = before @ cg # after"
      and "firstGoBuild before = None" and "firstGoBuild after = None"
      and "List cg = pre @ c # post" and "find isGoBuild pre = None" and "isGoBuild c"
      and "Contains (Text c) constraint"
  shows "fixupFileConstraints L file True checkonly w =
           writeBack L file checkonly b
             (f\<lparr>Comments := before @
                 cg\<lparr>List :=
                     (if list_all isSpace (stripClause (drop 10 (Text c)))
                      then filter (\<lambda>x. \<not> emptyGoBuild (Text x)) (pre @ post)
                      else pre @ c\<lparr>Text := ''//go:build'' @ stripClause (drop 10 (Text c))\<rparr>
                             # post)\<rparr>
                 # after\<rparr>) w
       \<and> stripClause (goBuild @ ''('' @ constraint @ '') &&'' @ rest) = goBuild @ stripClause rest"
proof
  have "editComments True (Comments f) =
          Continue (Inr (before @
            cg\<lparr>List :=
                (if list_all isSpace (stripClause (drop 10 (Text c)))
                 then filter (\<lambda>x. \<not> emptyGoBuild (Text x)) (pre @ post)
                 else pre @ c\<lparr>Text := ''//go:build'' @ stripClause (drop 10 (Text c))\<rparr> # post)\<rparr>
            # after))"
    unfolding editComments_def assms(3)
    by (simp add: fixupGroups_one_group [OF assms(4-8)] fixupComment_strip [OF assms(8,9)])
  with assms(1,2) show "fixupFileConstraints L file True checkonly w =
           writeBack L file checkonly b
             (f\<lparr>Comments := before @
                 cg\<lparr>List :=
                     (if list_all isSpace (stripClause (drop 10 (Text c)))
                      then filter (\<lambda>x. \<not> emptyGoBuild (Text x)) (pre @ post)
                      else pre @ c\<lparr>Text := ''//go:build'' @ stripClause (drop 10 (Text c))\<rparr>
                             # post)\<rparr>
                 # after\<rparr>) w"
    by (simp add: fixupFileConstraints_def)
next
  show "stripClause (goBuild @ ''('' @ constraint @ '') &&'' @ rest) = goBuild @ stripClause rest"
    by (rule stripClause_written)
qed

theorem strip_first_line_witness:
  "fixupFileConstraints demoLib ''cmds/core/ls/ls.go'' True False
     (demoWorld\<lparr>files := (files demoWorld)(''cmds/core/ls/ls.go'' \<mapsto> srcTagged)\<rparr>)
   = Inr ((True, None), demoWorld\<lparr>files := (files demoWorld)(''cmds/core/ls/ls.go'' \<mapsto> srcPlain)\<rparr>)
   \<and> stripClause (goBuild @ ''('' @ constraint @ '') &&'' @ '' (linux)'') = goBuild @ '' (linux)''"
proof -
  let ?w = "demoWorld\<lparr>files := (files demoWorld)(''cmds/core/ls/ls.go'' \<mapsto> srcTagged)\<rparr>"
  let ?c = "\<lparr>Slash = 1, Text = ''//go:build !tinygo || tinygo.enable''\<rparr>"
  let ?cg = "\<lparr>List = [?c]\<rparr>"
  have a: "files ?w ''cmds/core/ls/ls.go'' = Some srcTagged" by simp
  have b: "ParseFile demoLib ''cmds/core/ls/ls.go'' srcTagged = Some (fileTagged 1)" by code_simp
  have c: "Comments (fileTagged 1) = [] @ ?cg # []" by code_simp
  have d: "firstGoBuild [] = None" by simp
  have e: "List ?cg = [] @ ?c # []" by simp
  have g: "find isGoBuild [] = None" by simp
  have h: "isGoBuild ?c" by code_simp
  have i: "Contains (Text ?c) constraint" by code_simp
  have j: "list_all isSpace (stripClause (drop 10 (Text ?c)))" by code_simp
  have k: "Fprint demoLib (fileTagged 1\<lparr>Comments := [\<lparr>List = []\<rparr>]\<rparr>) = Some srcPlain"
    by code_simp
  have l: "srcTagged \<noteq> srcPlain" by code_simp
  have m: "stripClause '' (linux)'' = '' (linux)''" by code_simp
  from strip_first_line [OF a b c d d e g h i, of False "'' (linux)''"] j k l m
  show ?thesis by (simp add: writeBack_def demo_files)
qed


end
